theory Spec2Isabelle
  imports Complex_Main
begin

section \<open>Split-stream verdict classification\<close>

text \<open>
  The development embeds the function \<^verbatim>\<open>solve_moral_situation_split_stream\<close>, which
  exists in two variants (\<^verbatim>\<open>high_conflict_z3.py\<close> and \<^verbatim>\<open>demo.py\<close>). The variants
  share the loop over the comments and differ in the final rules and in what is returned
  when the solver reports no model.

  Input records are the JSON objects of the vector file: a post with an optional key
  \<^verbatim>\<open>processed_comments\<close>, each comment with the optional keys
  \<^verbatim>\<open>comment_content_vector\<close> and \<^verbatim>\<open>comment_quality_vector\<close>, the vectors being
  lists of JSON numbers of any length.
\<close>

subsection \<open>Python numbers\<close>

text \<open>
  A JSON number is parsed into a Python \<^verbatim>\<open>int\<close> (unbounded) or a \<^verbatim>\<open>float\<close>
  (binary64). A finite float is represented by its exact rational value; the sign of a
  zero is not kept, since addition, multiplication, \<^verbatim>\<open>int()\<close> and \<^verbatim>\<open>== 1\<close> cannot
  observe it.
\<close>

datatype py_error = IndexError | ValueError | OverflowError

datatype pyfloat = Fin rat | PosInf | NegInf | NaN

datatype pynum = PInt int | PFloat pyfloat

function bit_length :: "int \<Rightarrow> int" where
  "bit_length n = (if n \<le> 0 then 0 else 1 + bit_length (n div 2))"
  by pat_completeness auto
termination
  by (relation "measure nat") auto

declare bit_length.simps [simp del]

definition pow2 :: "int \<Rightarrow> rat" where
  "pow2 k = (if 0 \<le> k then 2 ^ nat k else 1 / 2 ^ nat (- k))"

definition round_half_even :: "rat \<Rightarrow> int" where
  "round_half_even x =
     (let f = \<lfloor>x\<rfloor>; r = x - of_int f
      in if r < 1 / 2 then f
         else if 1 / 2 < r then f + 1
         else if even f then f else f + 1)"

definition floor_log2 :: "rat \<Rightarrow> int" where
  \<comment> \<open>for \<open>0 < a\<close>: the \<open>k\<close> with \<open>2 ^ k \<le> a < 2 ^ (k + 1)\<close>\<close>
  "floor_log2 a =
     (if 1 \<le> a then bit_length \<lfloor>a\<rfloor> - 1 else - bit_length (\<lceil>1 / a\<rceil> - 1))"

definition round_binary64 :: "rat \<Rightarrow> pyfloat" where
  \<comment> \<open>round to nearest, ties to even, with 53 significant bits; exponents below the
      normal range keep the subnormal spacing \<open>2 ^ - 1074\<close>; overflow gives an infinity\<close>
  "round_binary64 q =
     (if q = 0 then Fin 0
      else let a = \<bar>q\<bar>;
               e = max (- 1074) (floor_log2 a - 52);
               v = of_int (round_half_even (a / pow2 e)) * pow2 e
           in if pow2 1024 \<le> v then (if 0 < q then PosInf else NegInf)
              else Fin (if 0 < q then v else - v))"

fun float_add :: "pyfloat \<Rightarrow> pyfloat \<Rightarrow> pyfloat" where
  "float_add (Fin a) (Fin b) = round_binary64 (a + b)"
| "float_add NaN _ = NaN"
| "float_add _ NaN = NaN"
| "float_add PosInf NegInf = NaN"
| "float_add NegInf PosInf = NaN"
| "float_add PosInf _ = PosInf"
| "float_add NegInf _ = NegInf"
| "float_add _ PosInf = PosInf"
| "float_add _ NegInf = NegInf"

fun float_mul :: "pyfloat \<Rightarrow> pyfloat \<Rightarrow> pyfloat" where
  "float_mul (Fin a) (Fin b) = round_binary64 (a * b)"
| "float_mul NaN _ = NaN"
| "float_mul _ NaN = NaN"
| "float_mul PosInf (Fin b) = (if b = 0 then NaN else if 0 < b then PosInf else NegInf)"
| "float_mul NegInf (Fin b) = (if b = 0 then NaN else if 0 < b then NegInf else PosInf)"
| "float_mul (Fin a) PosInf = (if a = 0 then NaN else if 0 < a then PosInf else NegInf)"
| "float_mul (Fin a) NegInf = (if a = 0 then NaN else if 0 < a then NegInf else PosInf)"
| "float_mul PosInf PosInf = PosInf"
| "float_mul PosInf NegInf = NegInf"
| "float_mul NegInf PosInf = NegInf"
| "float_mul NegInf NegInf = PosInf"

definition int_to_float :: "int \<Rightarrow> py_error + pyfloat" where
  \<comment> \<open>the conversion of mixed arithmetic; \<^verbatim>\<open>OverflowError: int too large to convert to float\<close>\<close>
  "int_to_float i =
     (case round_binary64 (of_int i) of
        Fin v \<Rightarrow> Inr (Fin v)
      | _ \<Rightarrow> Inl OverflowError)"

fun py_add :: "pynum \<Rightarrow> pynum \<Rightarrow> py_error + pynum" where
  "py_add (PInt a) (PInt b) = Inr (PInt (a + b))"
| "py_add (PInt a) (PFloat y) =
     (case int_to_float a of Inl err \<Rightarrow> Inl err | Inr x \<Rightarrow> Inr (PFloat (float_add x y)))"
| "py_add (PFloat x) (PInt b) =
     (case int_to_float b of Inl err \<Rightarrow> Inl err | Inr y \<Rightarrow> Inr (PFloat (float_add x y)))"
| "py_add (PFloat x) (PFloat y) = Inr (PFloat (float_add x y))"

fun py_mul :: "pynum \<Rightarrow> pynum \<Rightarrow> py_error + pynum" where
  "py_mul (PInt a) (PInt b) = Inr (PInt (a * b))"
| "py_mul (PInt a) (PFloat y) =
     (case int_to_float a of Inl err \<Rightarrow> Inl err | Inr x \<Rightarrow> Inr (PFloat (float_mul x y)))"
| "py_mul (PFloat x) (PInt b) =
     (case int_to_float b of Inl err \<Rightarrow> Inl err | Inr y \<Rightarrow> Inr (PFloat (float_mul x y)))"
| "py_mul (PFloat x) (PFloat y) = Inr (PFloat (float_mul x y))"

definition truncate_rat :: "rat \<Rightarrow> int" where
  "truncate_rat q = (if 0 \<le> q then \<lfloor>q\<rfloor> else \<lceil>q\<rceil>)"

fun py_int :: "pynum \<Rightarrow> py_error + int" where
  "py_int (PInt a) = Inr a"
| "py_int (PFloat (Fin q)) = Inr (truncate_rat q)"
| "py_int (PFloat NaN) = Inl ValueError"
| "py_int (PFloat PosInf) = Inl OverflowError"
| "py_int (PFloat NegInf) = Inl OverflowError"

fun py_eq_one :: "pynum \<Rightarrow> bool" where
  \<comment> \<open>\<^verbatim>\<open>x == 1\<close>\<close>
  "py_eq_one (PInt a) = (a = 1)"
| "py_eq_one (PFloat (Fin q)) = (q = 1)"
| "py_eq_one (PFloat _) = False"

definition getitem :: "'a list \<Rightarrow> nat \<Rightarrow> py_error + 'a" where
  \<comment> \<open>\<^verbatim>\<open>xs[i]\<close> for a literal index \<open>i \<ge> 0\<close>\<close>
  "getitem xs i = (if i < length xs then Inr (xs ! i) else Inl IndexError)"

subsection \<open>Input records, soft clauses and the solver's state\<close>

record comment =
  comment_content_vector :: "pynum list option"
  comment_quality_vector :: "pynum list option"

text \<open>
  \<open>None\<close> is an absent key. The function reads only \<^verbatim>\<open>processed_comments\<close>; every
  other key of a post (\<^verbatim>\<open>post_id\<close>, \<^verbatim>\<open>title\<close>, ...) lives in the record's extension.
\<close>

record post =
  post_id :: string
  title :: string
  processed_comments :: "comment list option"

datatype propvar = Harm | Intent | Empathy | Apology

text \<open>
  \<^verbatim>\<open>opt.add_soft(harm, w)\<close> is the clause \<open>(Harm, True, w)\<close> and
  \<^verbatim>\<open>opt.add_soft(Not(harm), w)\<close> is \<open>(Harm, False, w)\<close>.
\<close>

record soft_clause =
  var :: propvar
  polarity :: bool
  weight :: int

record assignment =
  is_harm :: bool
  is_intent :: bool
  is_empathy :: bool
  is_apology :: bool

datatype verdict = YTA | NTA | NAH | ESH | Unclear | NoData

fun verdict_label :: "verdict \<Rightarrow> string" where
  "verdict_label YTA = ''YTA''"
| "verdict_label NTA = ''NTA''"
| "verdict_label NAH = ''NAH''"
| "verdict_label ESH = ''ESH''"
| "verdict_label Unclear = ''Unclear''"
| "verdict_label NoData = ''No Data''"

text \<open>
  The solver is the library object \<^verbatim>\<open>Optimize()\<close>: \<^verbatim>\<open>add_soft\<close> appends to its soft
  clauses, \<^verbatim>\<open>check()\<close> followed by \<^verbatim>\<open>model()\<close> is a function of the clauses added
  so far, \<open>None\<close> when \<^verbatim>\<open>check()\<close> does not answer \<^verbatim>\<open>sat\<close>. The functions below
  take it as a parameter.
\<close>

type_synonym optimizer = "soft_clause list \<Rightarrow> assignment option"

text \<open>
  What one call leaves behind: the soft clauses added to \<^verbatim>\<open>opt\<close>, whether
  \<^verbatim>\<open>opt.check()\<close> was called, and the returned value (\<open>None\<close> is Python's
  \<^verbatim>\<open>None\<close>, returned when the function body ends without a \<^verbatim>\<open>return\<close>).
\<close>

record run =
  opt_soft :: "soft_clause list"
  opt_checked :: bool
  returned :: "verdict option"

subsection \<open>The loop body\<close>

definition default_content :: "pynum list" where
  "default_content = [PInt 0, PInt 0, PInt 0, PInt 0]"

definition default_quality :: "pynum list" where
  "default_quality = [PInt 1, PInt 1, PInt 1, PInt 1, PInt 1]"

definition get_content_vector :: "comment \<Rightarrow> pynum list" where
  \<comment> \<open>\<^verbatim>\<open>comment.get('comment_content_vector', [0, 0, 0, 0])\<close>\<close>
  "get_content_vector c =
     (case comment_content_vector c of None \<Rightarrow> default_content | Some v \<Rightarrow> v)"

definition get_quality_vector :: "comment \<Rightarrow> pynum list" where
  \<comment> \<open>\<^verbatim>\<open>comment.get('comment_quality_vector', [1, 1, 1, 1, 1])\<close>\<close>
  "get_quality_vector c =
     (case comment_quality_vector c of None \<Rightarrow> default_quality | Some v \<Rightarrow> v)"

definition pad_quality :: "pynum list \<Rightarrow> pynum list" where
  "pad_quality q_vec =
     (if length q_vec < 5 then q_vec @ replicate (5 - length q_vec) (PInt 1) else q_vec)"

definition stream_weight :: "pynum \<Rightarrow> pynum \<Rightarrow> pynum \<Rightarrow> py_error + int" where
  \<comment> \<open>\<^verbatim>\<open>int((a + b) * non_biased)\<close>\<close>
  "stream_weight a b non_biased =
     (case py_add a b of
        Inl err \<Rightarrow> Inl err
      | Inr s \<Rightarrow>
          (case py_mul s non_biased of
             Inl err \<Rightarrow> Inl err
           | Inr p \<Rightarrow> py_int p))"

definition split_stream_weights :: "pynum list \<Rightarrow> py_error + (int \<times> int)" where
  \<comment> \<open>from the quality vector as read from the record to \<open>(w_logic, w_ethic)\<close>\<close>
  "split_stream_weights q_vec0 =
     (let q_vec = pad_quality q_vec0
      in case getitem q_vec 0 of Inl err \<Rightarrow> Inl err | Inr justif \<Rightarrow>
         case getitem q_vec 1 of Inl err \<Rightarrow> Inl err | Inr ethic \<Rightarrow>
         case getitem q_vec 2 of Inl err \<Rightarrow> Inl err | Inr delib \<Rightarrow>
         case getitem q_vec 3 of Inl err \<Rightarrow> Inl err | Inr fair_blame \<Rightarrow>
         case getitem q_vec 4 of Inl err \<Rightarrow> Inl err | Inr non_biased \<Rightarrow>
         case stream_weight justif delib non_biased of Inl err \<Rightarrow> Inl err | Inr w_logic \<Rightarrow>
         case stream_weight ethic fair_blame non_biased of Inl err \<Rightarrow> Inl err | Inr w_ethic \<Rightarrow>
         Inr (w_logic, w_ethic))"

definition vote :: "pynum list \<Rightarrow> nat \<Rightarrow> propvar \<Rightarrow> int \<Rightarrow> py_error + soft_clause" where
  \<comment> \<open>\<^verbatim>\<open>if c_vec[i] == 1: opt.add_soft(x, w) else: opt.add_soft(Not(x), w)\<close>\<close>
  "vote c_vec i x w =
     (case getitem c_vec i of
        Inl err \<Rightarrow> Inl err
      | Inr flag \<Rightarrow> Inr \<lparr>var = x, polarity = py_eq_one flag, weight = w\<rparr>)"

definition comment_clauses :: "comment \<Rightarrow> py_error + soft_clause list" where
  \<comment> \<open>the clauses one iteration adds, in the order of the \<^verbatim>\<open>add_soft\<close> calls\<close>
  "comment_clauses c =
     (let c_vec = get_content_vector c;
          q_vec = get_quality_vector c
      in case split_stream_weights q_vec of Inl err \<Rightarrow> Inl err | Inr (w_logic, w_ethic) \<Rightarrow>
         case vote c_vec 0 Harm w_logic of Inl err \<Rightarrow> Inl err | Inr k0 \<Rightarrow>
         case vote c_vec 1 Intent w_logic of Inl err \<Rightarrow> Inl err | Inr k1 \<Rightarrow>
         case vote c_vec 2 Empathy w_ethic of Inl err \<Rightarrow> Inl err | Inr k2 \<Rightarrow>
         case vote c_vec 3 Apology w_ethic of Inl err \<Rightarrow> Inl err | Inr k3 \<Rightarrow>
         Inr [k0, k1, k2, k3])"

fun add_comments :: "soft_clause list \<Rightarrow> comment list \<Rightarrow> py_error + soft_clause list" where
  \<comment> \<open>\<^verbatim>\<open>for comment in comments: ...\<close>, threading the soft clauses of \<^verbatim>\<open>opt\<close>\<close>
  "add_comments soft [] = Inr soft"
| "add_comments soft (c # cs) =
     (case comment_clauses c of
        Inl err \<Rightarrow> Inl err
      | Inr ks \<Rightarrow> add_comments (soft @ ks) cs)"

subsection \<open>The final rules and the two variants\<close>

definition final_rules :: "assignment \<Rightarrow> verdict option" where
  \<comment> \<open>\<^verbatim>\<open>high_conflict_z3.py\<close>\<close>
  "final_rules m =
     (if \<not> is_harm m then Some NTA
      else if is_harm m \<and> is_intent m then Some YTA
      else if is_harm m \<and> \<not> is_intent m then
        (if is_empathy m \<or> is_apology m then Some NAH else Some ESH)
      else None)"

definition final_rules_demo :: "assignment \<Rightarrow> verdict option" where
  \<comment> \<open>\<^verbatim>\<open>demo.py\<close>; leaving the chain falls through to \<^verbatim>\<open>return "Unclear"\<close>\<close>
  "final_rules_demo m =
     (if is_harm m \<and> is_intent m then Some YTA
      else if \<not> is_harm m then Some NAH
      else if is_harm m \<and> \<not> is_intent m then
        (if is_empathy m \<or> is_apology m then Some NTA else Some ESH)
      else Some Unclear)"

definition get_comments :: "'a post_scheme \<Rightarrow> comment list" where
  \<comment> \<open>\<^verbatim>\<open>post_data.get('processed_comments', [])\<close>\<close>
  "get_comments post_data =
     (case processed_comments post_data of None \<Rightarrow> [] | Some cs \<Rightarrow> cs)"

definition solve_moral_situation_split_stream ::
    "optimizer \<Rightarrow> 'a post_scheme \<Rightarrow> py_error + run" where
  \<comment> \<open>\<^verbatim>\<open>high_conflict_z3.py\<close>\<close>
  "solve_moral_situation_split_stream opt post_data =
     (let comments = get_comments post_data
      in if comments = [] then
           Inr \<lparr>opt_soft = [], opt_checked = False, returned = Some NoData\<rparr>
         else
           (case add_comments [] comments of
              Inl err \<Rightarrow> Inl err
            | Inr soft \<Rightarrow>
                (case opt soft of
                   Some m \<Rightarrow>
                     Inr \<lparr>opt_soft = soft, opt_checked = True, returned = final_rules m\<rparr>
                 | None \<Rightarrow>
                     Inr \<lparr>opt_soft = soft, opt_checked = True, returned = None\<rparr>)))"

definition solve_moral_situation_split_stream_demo ::
    "optimizer \<Rightarrow> 'a post_scheme \<Rightarrow> py_error + run" where
  \<comment> \<open>\<^verbatim>\<open>demo.py\<close>\<close>
  "solve_moral_situation_split_stream_demo opt post_data =
     (let comments = get_comments post_data
      in if comments = [] then
           Inr \<lparr>opt_soft = [], opt_checked = False, returned = Some NoData\<rparr>
         else
           (case add_comments [] comments of
              Inl err \<Rightarrow> Inl err
            | Inr soft \<Rightarrow>
                (case opt soft of
                   Some m \<Rightarrow>
                     Inr \<lparr>opt_soft = soft, opt_checked = True, returned = final_rules_demo m\<rparr>
                 | None \<Rightarrow>
                     Inr \<lparr>opt_soft = soft, opt_checked = True, returned = Some Unclear\<rparr>)))"

subsection \<open>The weighted optimizer\<close>

text \<open>
  Modelled from the spec: the solver behind \<^verbatim>\<open>opt.check()\<close> and \<^verbatim>\<open>opt.model()\<close> is
  the z3 library, which is not part of the sources. Section 4.3 of the specification gives
  its contract: among the 16 assignments, one that maximises the sum of the weights of
  the satisfied clauses, a clause with polarity \<open>p\<close> on proposition \<open>X\<close> being satisfied
  iff the assignment gives \<open>X\<close> the value \<open>p\<close>; the search is exhaustive and always
  feasible; ties are broken by a fixed rule, here the first maximum in lexicographic
  order over (harm, intent, empathy, apology) with \<open>False\<close> before \<open>True\<close>.
\<close>

fun lookup :: "assignment \<Rightarrow> propvar \<Rightarrow> bool" where
  "lookup a Harm = is_harm a"
| "lookup a Intent = is_intent a"
| "lookup a Empathy = is_empathy a"
| "lookup a Apology = is_apology a"

definition satisfied :: "assignment \<Rightarrow> soft_clause \<Rightarrow> bool" where
  "satisfied a k = (lookup a (var k) = polarity k)"

definition satisfied_weight :: "soft_clause list \<Rightarrow> assignment \<Rightarrow> int" where
  "satisfied_weight soft a = sum_list (map weight (filter (satisfied a) soft))"

definition all_assignments :: "assignment list" where
  "all_assignments =
     [\<lparr>is_harm = h, is_intent = i, is_empathy = e, is_apology = p\<rparr>.
        h \<leftarrow> [False, True], i \<leftarrow> [False, True], e \<leftarrow> [False, True], p \<leftarrow> [False, True]]"

fun first_maximum :: "soft_clause list \<Rightarrow> assignment \<Rightarrow> assignment list \<Rightarrow> assignment" where
  "first_maximum soft best [] = best"
| "first_maximum soft best (a # as) =
     first_maximum soft
       (if satisfied_weight soft best < satisfied_weight soft a then a else best) as"

definition weighted_optimizer :: optimizer where
  "weighted_optimizer soft =
     (case all_assignments of
        [] \<Rightarrow> None
      | a # as \<Rightarrow> Some (first_maximum soft a as))"

subsection \<open>Notions used by the properties\<close>

definition swap_nta_nah :: "verdict \<Rightarrow> verdict" where
  \<comment> \<open>exchanges the labels NTA and NAH and keeps every other verdict\<close>
  "swap_nta_nah v = (case v of NTA \<Rightarrow> NAH | NAH \<Rightarrow> NTA | _ \<Rightarrow> v)"

definition truncated_toward_zero :: "pynum \<Rightarrow> int \<Rightarrow> bool" where
  \<comment> \<open>\<open>w\<close> is the number \<open>p\<close> itself when \<open>p\<close> is an int, and otherwise the integer
      next to the finite float \<open>p\<close> in the direction of zero: less than 1 away from it,
      not larger in absolute value and not of the opposite sign\<close>
  "truncated_toward_zero p w =
     (case p of
        PInt i \<Rightarrow> w = i
      | PFloat (Fin x) \<Rightarrow>
          \<bar>of_int w\<bar> \<le> \<bar>x\<bar> \<and> \<bar>x\<bar> < \<bar>of_int w\<bar> + 1 \<and> 0 \<le> of_int w * x
      | PFloat _ \<Rightarrow> False)"

definition content_long_enough :: "comment \<Rightarrow> bool" where
  \<comment> \<open>the content vector is absent or has the four entries the loop body reads\<close>
  "content_long_enough c =
     (case comment_content_vector c of None \<Rightarrow> True | Some v \<Rightarrow> 4 \<le> length v)"

definition weights_computable :: "comment \<Rightarrow> bool" where
  \<comment> \<open>both \<^verbatim>\<open>int(...)\<close> casts of the loop body return\<close>
  "weights_computable c =
     (case split_stream_weights (get_quality_vector c) of Inl _ \<Rightarrow> False | Inr _ \<Rightarrow> True)"

fun is_py_int :: "pynum \<Rightarrow> bool" where
  "is_py_int (PInt _) = True"
| "is_py_int (PFloat _) = False"

definition integer_quality :: "comment \<Rightarrow> bool" where
  \<comment> \<open>the quality entries that are read (the first five) are Python ints\<close>
  "integer_quality c =
     (case comment_quality_vector c of
        None \<Rightarrow> True
      | Some q \<Rightarrow> list_all is_py_int (take 5 q))"

subsection \<open>Example inputs\<close>

definition comment_a :: comment where
  \<comment> \<open>scenario A of the specification\<close>
  "comment_a =
     \<lparr>comment_content_vector = Some [PInt 1, PInt 1, PInt 0, PInt 0],
      comment_quality_vector = Some [PInt 1, PInt 1, PInt 1, PInt 1, PInt 1]\<rparr>"

definition post_a :: post where
  "post_a = \<lparr>post_id = ''a'', title = ''scenario A'', processed_comments = Some [comment_a]\<rparr>"

definition clauses_a :: "soft_clause list" where
  "clauses_a =
     [\<lparr>var = Harm, polarity = True, weight = 2\<rparr>,
      \<lparr>var = Intent, polarity = True, weight = 2\<rparr>,
      \<lparr>var = Empathy, polarity = False, weight = 2\<rparr>,
      \<lparr>var = Apology, polarity = False, weight = 2\<rparr>]"

definition post_conflict :: post where
  \<comment> \<open>two comments that disagree on harm and intent; the second has no quality vector\<close>
  "post_conflict =
     \<lparr>post_id = ''c'', title = ''conflict'',
      processed_comments = Some
        [\<lparr>comment_content_vector = Some [PInt 1, PInt 0, PInt 0, PInt 0],
          comment_quality_vector = Some [PInt 2, PInt 1, PInt 1, PInt 1, PInt 1]\<rparr>,
         \<lparr>comment_content_vector = Some [PInt 0, PInt 1, PInt 1, PInt 0],
          comment_quality_vector = None\<rparr>]\<rparr>"

definition clauses_conflict :: "soft_clause list" where
  "clauses_conflict =
     [\<lparr>var = Harm, polarity = True, weight = 3\<rparr>,
      \<lparr>var = Intent, polarity = False, weight = 3\<rparr>,
      \<lparr>var = Empathy, polarity = False, weight = 2\<rparr>,
      \<lparr>var = Apology, polarity = False, weight = 2\<rparr>,
      \<lparr>var = Harm, polarity = False, weight = 2\<rparr>,
      \<lparr>var = Intent, polarity = True, weight = 2\<rparr>,
      \<lparr>var = Empathy, polarity = True, weight = 2\<rparr>,
      \<lparr>var = Apology, polarity = False, weight = 2\<rparr>]"

definition post_missing :: post where
  \<comment> \<open>no \<^verbatim>\<open>processed_comments\<close> key\<close>
  "post_missing = \<lparr>post_id = ''m'', title = ''missing'', processed_comments = None\<rparr>"

definition post_empty :: post where
  "post_empty = \<lparr>post_id = ''e'', title = ''empty'', processed_comments = Some []\<rparr>"

definition post_short_content :: post where
  \<comment> \<open>one comment whose content vector has two entries\<close>
  "post_short_content =
     \<lparr>post_id = ''s'', title = ''short content'',
      processed_comments = Some
        [\<lparr>comment_content_vector = Some [PInt 1, PInt 1],
          comment_quality_vector = None\<rparr>]\<rparr>"

definition post_defaults :: post where
  \<comment> \<open>one comment without content vector and with a quality vector of three entries\<close>
  "post_defaults =
     \<lparr>post_id = ''d'', title = ''defaults'',
      processed_comments = Some
        [\<lparr>comment_content_vector = None,
          comment_quality_vector = Some [PInt 2, PInt 0, PInt 3]\<rparr>]\<rparr>"

definition comment_float :: comment where
  \<comment> \<open>float quality entries; the logic product is \<open>-2.25\<close>, the ethic product \<open>2.625\<close>\<close>
  "comment_float =
     \<lparr>comment_content_vector = Some [PInt 0, PInt 1, PInt 0, PInt 1],
      comment_quality_vector = Some
        [PFloat (Fin (- 1 / 2)), PInt 1, PInt (- 1), PFloat (Fin (3 / 4)), PFloat (Fin (3 / 2))]\<rparr>"

definition clauses_float :: "soft_clause list" where
  "clauses_float =
     [\<lparr>var = Harm, polarity = False, weight = - 2\<rparr>,
      \<lparr>var = Intent, polarity = True, weight = - 2\<rparr>,
      \<lparr>var = Empathy, polarity = False, weight = 2\<rparr>,
      \<lparr>var = Apology, polarity = True, weight = 2\<rparr>]"

definition comment_flags :: comment where
  \<comment> \<open>content flags 1, 2, -1 and 0.5\<close>
  "comment_flags =
     \<lparr>comment_content_vector = Some [PInt 1, PInt 2, PInt (- 1), PFloat (Fin (1 / 2))],
      comment_quality_vector = None\<rparr>"

definition clauses_flags :: "soft_clause list" where
  "clauses_flags =
     [\<lparr>var = Harm, polarity = True, weight = 2\<rparr>,
      \<lparr>var = Intent, polarity = False, weight = 2\<rparr>,
      \<lparr>var = Empathy, polarity = False, weight = 2\<rparr>,
      \<lparr>var = Apology, polarity = False, weight = 2\<rparr>]"

definition no_model :: optimizer where
  \<comment> \<open>a solver whose \<^verbatim>\<open>check()\<close> never answers \<^verbatim>\<open>sat\<close>\<close>
  "no_model soft = None"


definition comment_short :: comment where
  \<comment> \<open>a content vector of two entries\<close>
  "comment_short =
     \<lparr>comment_content_vector = Some [PInt 1, PInt 1], comment_quality_vector = None\<rparr>"

definition comment_nan :: comment where
  \<comment> \<open>a quality vector whose first entry is \<^verbatim>\<open>NaN\<close>\<close>
  "comment_nan =
     \<lparr>comment_content_vector = Some [PInt 1, PInt 1, PInt 0, PInt 0],
      comment_quality_vector = Some [PFloat NaN, PInt 1, PInt 1, PInt 1, PInt 1]\<rparr>"



section \<open>Properties\<close>

subsection \<open>The loop body\<close>

lemma length_pad_quality: "5 \<le> length (pad_quality q)"
  by (simp add: pad_quality_def)

lemma getitem_pad_quality: "i < 5 \<Longrightarrow> getitem (pad_quality q) i = Inr (pad_quality q ! i)"
  using length_pad_quality [of q] by (simp add: getitem_def)

lemma split_stream_weights_eq:
  "split_stream_weights q =
     (case stream_weight (pad_quality q ! 0) (pad_quality q ! 2) (pad_quality q ! 4) of
        Inl err \<Rightarrow> Inl err
      | Inr w_logic \<Rightarrow>
          (case stream_weight (pad_quality q ! 1) (pad_quality q ! 3) (pad_quality q ! 4) of
             Inl err \<Rightarrow> Inl err
           | Inr w_ethic \<Rightarrow> Inr (w_logic, w_ethic)))"
  by (simp add: split_stream_weights_def Let_def getitem_pad_quality split: sum.splits)

lemma vote_in_range:
  "i < length c_vec \<Longrightarrow>
     vote c_vec i x w = Inr \<lparr>var = x, polarity = py_eq_one (c_vec ! i), weight = w\<rparr>"
  by (simp add: vote_def getitem_def)

lemma vote_out_of_range: "\<not> i < length c_vec \<Longrightarrow> vote c_vec i x w = Inl IndexError"
  by (simp add: vote_def getitem_def)

lemma comment_clauses_long:
  assumes "split_stream_weights (get_quality_vector c) = Inr (w_logic, w_ethic)"
    and "4 \<le> length (get_content_vector c)"
  shows "comment_clauses c =
     Inr [\<lparr>var = Harm, polarity = py_eq_one (get_content_vector c ! 0), weight = w_logic\<rparr>,
          \<lparr>var = Intent, polarity = py_eq_one (get_content_vector c ! 1), weight = w_logic\<rparr>,
          \<lparr>var = Empathy, polarity = py_eq_one (get_content_vector c ! 2), weight = w_ethic\<rparr>,
          \<lparr>var = Apology, polarity = py_eq_one (get_content_vector c ! 3), weight = w_ethic\<rparr>]"
proof -
  let ?v = "get_content_vector c"
  have l0: "0 < length ?v" and l1: "1 < length ?v" and l2: "2 < length ?v" and l3: "3 < length ?v"
    using assms(2) by linarith+
  show ?thesis
    using assms(1) vote_in_range [OF l0, of Harm w_logic] vote_in_range [OF l1, of Intent w_logic]
      vote_in_range [OF l2, of Empathy w_ethic] vote_in_range [OF l3, of Apology w_ethic]
    by (simp add: comment_clauses_def Let_def)
qed

lemma comment_clauses_short:
  assumes "split_stream_weights (get_quality_vector c) = Inr ws"
    and "\<not> 4 \<le> length (get_content_vector c)"
  shows "comment_clauses c = Inl IndexError"
proof -
  let ?v = "get_content_vector c"
  obtain w_logic w_ethic where ws: "ws = (w_logic, w_ethic)"
    by (cases ws)
  consider "length ?v = 0" | "length ?v = 1" | "length ?v = 2" | "length ?v = 3"
    using assms(2) by linarith
  then show ?thesis
  proof cases
    case 1
    then show ?thesis
      using assms(1) ws by (simp add: comment_clauses_def Let_def vote_out_of_range)
  next
    case 2
    then show ?thesis
      using assms(1) ws
      by (simp add: comment_clauses_def Let_def vote_in_range vote_out_of_range)
  next
    case 3
    then show ?thesis
      using assms(1) ws
      by (simp add: comment_clauses_def Let_def vote_in_range vote_out_of_range)
  next
    case 4
    then show ?thesis
      using assms(1) ws
      by (simp add: comment_clauses_def Let_def vote_in_range vote_out_of_range)
  qed
qed

lemma comment_clauses_weights_error:
  "split_stream_weights (get_quality_vector c) = Inl err \<Longrightarrow> comment_clauses c = Inl err"
  by (simp add: comment_clauses_def Let_def)

subsection \<open>The exhaustive optimizer\<close>

lemma all_assignments_unfold:
  "all_assignments =
     \<lparr>is_harm = False, is_intent = False, is_empathy = False, is_apology = False\<rparr> #
     [\<lparr>is_harm = False, is_intent = False, is_empathy = False, is_apology = True\<rparr>,
      \<lparr>is_harm = False, is_intent = False, is_empathy = True, is_apology = False\<rparr>,
      \<lparr>is_harm = False, is_intent = False, is_empathy = True, is_apology = True\<rparr>,
      \<lparr>is_harm = False, is_intent = True, is_empathy = False, is_apology = False\<rparr>,
      \<lparr>is_harm = False, is_intent = True, is_empathy = False, is_apology = True\<rparr>,
      \<lparr>is_harm = False, is_intent = True, is_empathy = True, is_apology = False\<rparr>,
      \<lparr>is_harm = False, is_intent = True, is_empathy = True, is_apology = True\<rparr>,
      \<lparr>is_harm = True, is_intent = False, is_empathy = False, is_apology = False\<rparr>,
      \<lparr>is_harm = True, is_intent = False, is_empathy = False, is_apology = True\<rparr>,
      \<lparr>is_harm = True, is_intent = False, is_empathy = True, is_apology = False\<rparr>,
      \<lparr>is_harm = True, is_intent = False, is_empathy = True, is_apology = True\<rparr>,
      \<lparr>is_harm = True, is_intent = True, is_empathy = False, is_apology = False\<rparr>,
      \<lparr>is_harm = True, is_intent = True, is_empathy = False, is_apology = True\<rparr>,
      \<lparr>is_harm = True, is_intent = True, is_empathy = True, is_apology = False\<rparr>,
      \<lparr>is_harm = True, is_intent = True, is_empathy = True, is_apology = True\<rparr>]"
  by (simp add: all_assignments_def)


lemma all_assignments_nonempty: "all_assignments \<noteq> []"
  unfolding all_assignments_unfold by (rule list.distinct)

lemma weighted_optimizer_eq:
  "weighted_optimizer soft =
     Some (first_maximum soft (hd all_assignments) (tl all_assignments))"
proof -
  have "\<And>xs :: assignment list. xs \<noteq> [] \<Longrightarrow>
      (case xs of [] \<Rightarrow> None | a # as \<Rightarrow> Some (first_maximum soft a as))
        = Some (first_maximum soft (hd xs) (tl xs))"
    by (case_tac xs) simp_all
  from this [OF all_assignments_nonempty] show ?thesis
    by (simp only: weighted_optimizer_def)
qed

lemma weighted_optimizer_total: "\<exists>b. weighted_optimizer soft = Some b"
  using weighted_optimizer_eq by (rule exI)

lemma all_assignments_complete: "a \<in> set all_assignments"
proof (cases a)
  case (fields h i e p)
  then show ?thesis
    by (cases h; cases i; cases e; cases p) (simp_all add: all_assignments_unfold)
qed

lemma first_maximum_bounds:
  "satisfied_weight soft best \<le> satisfied_weight soft (first_maximum soft best as) \<and>
   (\<forall>a \<in> set as. satisfied_weight soft a \<le> satisfied_weight soft (first_maximum soft best as))"
proof (induction as arbitrary: best)
  case Nil
  then show ?case by simp
next
  case (Cons x xs)
  let ?b = "if satisfied_weight soft best < satisfied_weight soft x then x else best"
  from Cons.IH [of ?b]
  have ih: "satisfied_weight soft ?b \<le> satisfied_weight soft (first_maximum soft ?b xs)"
    and rest: "\<forall>a \<in> set xs. satisfied_weight soft a \<le> satisfied_weight soft (first_maximum soft ?b xs)"
    by blast+
  have "satisfied_weight soft best \<le> satisfied_weight soft ?b"
    and "satisfied_weight soft x \<le> satisfied_weight soft ?b"
    by simp_all
  with ih rest show ?case by auto
qed

lemma weighted_optimizer_maximal:
  assumes "weighted_optimizer soft = Some b"
  shows "satisfied_weight soft a \<le> satisfied_weight soft b"
proof -
  have b: "b = first_maximum soft (hd all_assignments) (tl all_assignments)"
    using assms by (simp only: weighted_optimizer_eq option.inject)
  have "a \<in> set (hd all_assignments # tl all_assignments)"
    using all_assignments_complete [of a] all_assignments_nonempty by simp
  then show ?thesis
    using first_maximum_bounds [of soft "hd all_assignments" "tl all_assignments"] b by auto
qed

subsection \<open>Whole runs\<close>

lemma comment_clauses_eval:
  "comment_clauses c =
     (case split_stream_weights (get_quality_vector c) of
        Inl err \<Rightarrow> Inl err
      | Inr (w_logic, w_ethic) \<Rightarrow>
          if 4 \<le> length (get_content_vector c) then
            Inr [\<lparr>var = Harm, polarity = py_eq_one (get_content_vector c ! 0), weight = w_logic\<rparr>,
                 \<lparr>var = Intent, polarity = py_eq_one (get_content_vector c ! 1), weight = w_logic\<rparr>,
                 \<lparr>var = Empathy, polarity = py_eq_one (get_content_vector c ! 2), weight = w_ethic\<rparr>,
                 \<lparr>var = Apology, polarity = py_eq_one (get_content_vector c ! 3), weight = w_ethic\<rparr>]
          else Inl IndexError)"
proof (cases "split_stream_weights (get_quality_vector c)")
  case (Inl err)
  then show ?thesis by (simp add: comment_clauses_weights_error)
next
  case (Inr ws)
  obtain w_logic w_ethic where ws: "ws = (w_logic, w_ethic)" by (cases ws)
  show ?thesis
  proof (cases "4 \<le> length (get_content_vector c)")
    case True
    with Inr ws comment_clauses_long [of c w_logic w_ethic] show ?thesis by simp
  next
    case False
    with Inr ws comment_clauses_short [of c ws] show ?thesis by simp
  qed
qed

lemma stream_weight_ints:
  "stream_weight (PInt a) (PInt b) (PInt n) = Inr ((a + b) * n)"
  by (simp add: stream_weight_def)

lemma solve_nonempty:
  assumes "get_comments post_data \<noteq> []"
    and "add_comments [] (get_comments post_data) = Inr soft"
  shows "solve_moral_situation_split_stream opt post_data =
      Inr \<lparr>opt_soft = soft, opt_checked = True,
           returned = (case opt soft of Some m \<Rightarrow> final_rules m | None \<Rightarrow> None)\<rparr>"
    and "solve_moral_situation_split_stream_demo opt post_data =
      Inr \<lparr>opt_soft = soft, opt_checked = True,
           returned = (case opt soft of Some m \<Rightarrow> final_rules_demo m | None \<Rightarrow> Some Unclear)\<rparr>"
  using assms
  by (simp_all add: solve_moral_situation_split_stream_def
      solve_moral_situation_split_stream_demo_def Let_def split: option.splits)

lemma add_comments_post_conflict:
  "add_comments [] (get_comments post_conflict) = Inr clauses_conflict"
  by (simp add: get_comments_def post_conflict_def clauses_conflict_def comment_clauses_eval
      get_content_vector_def get_quality_vector_def default_quality_def split_stream_weights_eq
      pad_quality_def stream_weight_ints)

lemma solve_no_comments:
  assumes "get_comments post_data = []"
  shows "solve_moral_situation_split_stream opt post_data =
      Inr \<lparr>opt_soft = [], opt_checked = False, returned = Some NoData\<rparr>"
    and "solve_moral_situation_split_stream_demo opt post_data =
      Inr \<lparr>opt_soft = [], opt_checked = False, returned = Some NoData\<rparr>"
  using assms
  by (simp_all add: solve_moral_situation_split_stream_def
      solve_moral_situation_split_stream_demo_def)

lemma add_comments_post_a: "add_comments [] (get_comments post_a) = Inr clauses_a"
  by (simp add: get_comments_def post_a_def comment_a_def clauses_a_def comment_clauses_eval
      get_content_vector_def get_quality_vector_def split_stream_weights_eq
      pad_quality_def stream_weight_ints)

lemma get_comments_post_a: "get_comments post_a \<noteq> []"
  by (simp add: get_comments_def post_a_def)

lemma pad_quality_take: "5 \<le> length q \<Longrightarrow> pad_quality (take 5 q) = take 5 q"
  by (simp add: pad_quality_def)

lemma pad_quality_long: "5 \<le> length q \<Longrightarrow> pad_quality q = q"
  by (simp add: pad_quality_def)

lemma satisfied_weight_clauses_a:
  "satisfied_weight clauses_a a =
     (if is_harm a then 2 else 0) + (if is_intent a then 2 else 0)
     + (if is_empathy a then 0 else 2) + (if is_apology a then 0 else 2)"
  by (simp add: satisfied_weight_def clauses_a_def satisfied_def)

lemma clauses_a_unique_maximum:
  "(\<forall>a. satisfied_weight clauses_a a \<le> satisfied_weight clauses_a b) \<longleftrightarrow>
     b = \<lparr>is_harm = True, is_intent = True, is_empathy = False, is_apology = False\<rparr>"
proof
  assume "b = \<lparr>is_harm = True, is_intent = True, is_empathy = False, is_apology = False\<rparr>"
  then show "\<forall>a. satisfied_weight clauses_a a \<le> satisfied_weight clauses_a b"
    by (simp add: satisfied_weight_clauses_a)
next
  assume "\<forall>a. satisfied_weight clauses_a a \<le> satisfied_weight clauses_a b"
  then have "satisfied_weight clauses_a
      \<lparr>is_harm = True, is_intent = True, is_empathy = False, is_apology = False\<rparr>
      \<le> satisfied_weight clauses_a b"
    by blast
  then have "is_harm b \<and> is_intent b \<and> \<not> is_empathy b \<and> \<not> is_apology b"
    by (simp add: satisfied_weight_clauses_a split: if_splits)
  then show "b = \<lparr>is_harm = True, is_intent = True, is_empathy = False, is_apology = False\<rparr>"
    by (cases b) simp
qed

subsection \<open>Floats in the examples, truncation, polarity\<close>

lemma bit_length_numerals: "bit_length 1 = 1" "bit_length 2 = 2"
  by (simp_all add: bit_length.simps)

lemma floor_examples:
  "\<lfloor>3 / 2 :: rat\<rfloor> = 1" "\<lfloor>7 / 4 :: rat\<rfloor> = 1" "\<lfloor>9 / 4 :: rat\<rfloor> = 2" "\<lfloor>21 / 8 :: rat\<rfloor> = 2"
  by (rule floor_unique; simp)+

lemma floor_log2_examples:
  "floor_log2 1 = 0" "floor_log2 (3 / 2) = 0" "floor_log2 (7 / 4) = 0"
  "floor_log2 (9 / 4) = 1" "floor_log2 (21 / 8) = 1"
  by (simp_all add: floor_log2_def floor_examples bit_length_numerals)

lemma round_binary64_examples:
  "round_binary64 1 = Fin 1"
  "round_binary64 (- 1) = Fin (- 1)"
  "round_binary64 (- (3 / 2)) = Fin (- (3 / 2))"
  "round_binary64 (- (9 / 4)) = Fin (- (9 / 4))"
  "round_binary64 (7 / 4) = Fin (7 / 4)"
  "round_binary64 (21 / 8) = Fin (21 / 8)"
  by (simp_all add: round_binary64_def floor_log2_examples pow2_def round_half_even_def Let_def)

lemma int_to_float_examples:
  "int_to_float 1 = Inr (Fin 1)" "int_to_float (- 1) = Inr (Fin (- 1))"
  by (simp_all add: int_to_float_def round_binary64_examples)

lemma truncate_rat_examples:
  "truncate_rat (- (9 / 4)) = - 2" "truncate_rat (21 / 8) = 2"
proof -
  have "\<lceil>- (9 / 4) :: rat\<rceil> = - 2"
    by (rule ceiling_unique; simp)
  then show "truncate_rat (- (9 / 4)) = - 2"
    by (simp add: truncate_rat_def)
  show "truncate_rat (21 / 8) = 2"
    by (simp add: truncate_rat_def floor_examples)
qed

lemma stream_weight_float_logic:
  "stream_weight (PFloat (Fin (- (1 / 2)))) (PInt (- 1)) (PFloat (Fin (3 / 2))) = Inr (- 2)"
  by (simp add: stream_weight_def int_to_float_examples round_binary64_examples
      truncate_rat_examples)

lemma stream_weight_float_ethic:
  "stream_weight (PInt 1) (PFloat (Fin (3 / 4))) (PFloat (Fin (3 / 2))) = Inr 2"
  by (simp add: stream_weight_def int_to_float_examples round_binary64_examples
      truncate_rat_examples)

lemma split_stream_weights_comment_float:
  "split_stream_weights (get_quality_vector comment_float) = Inr (- 2, 2)"
  by (simp add: comment_float_def get_quality_vector_def split_stream_weights_eq pad_quality_def
      stream_weight_float_logic stream_weight_float_ethic)

lemma comment_clauses_comment_float: "comment_clauses comment_float = Inr clauses_float"
  by (simp add: comment_clauses_eval split_stream_weights_comment_float)
    (simp add: comment_float_def clauses_float_def get_content_vector_def)

lemma comment_clauses_comment_flags: "comment_clauses comment_flags = Inr clauses_flags"
  by (simp add: comment_clauses_eval comment_flags_def clauses_flags_def
      get_content_vector_def get_quality_vector_def default_quality_def
      split_stream_weights_eq pad_quality_def stream_weight_ints)

lemma truncate_rat_toward_zero: "truncated_toward_zero (PFloat (Fin x)) (truncate_rat x)"
proof (cases "0 \<le> x")
  case True
  then have w: "0 \<le> \<lfloor>x\<rfloor>" by simp
  have "of_int \<lfloor>x\<rfloor> \<le> x" and "x < of_int \<lfloor>x\<rfloor> + 1"
    by linarith+
  moreover have "0 \<le> (of_int \<lfloor>x\<rfloor> :: rat) * x"
    using w True by (intro mult_nonneg_nonneg) simp_all
  ultimately show ?thesis
    using True w by (simp add: truncated_toward_zero_def truncate_rat_def)
next
  case False
  then have neg: "x < 0" by simp
  then have w: "\<lceil>x\<rceil> \<le> 0" by (simp add: ceiling_le_zero)
  have "x \<le> of_int \<lceil>x\<rceil>" and "of_int \<lceil>x\<rceil> < x + 1"
    by linarith+
  moreover have "0 \<le> (of_int \<lceil>x\<rceil> :: rat) * x"
    using w neg by (intro mult_nonpos_nonpos) simp_all
  ultimately show ?thesis
    using neg w by (simp add: truncated_toward_zero_def truncate_rat_def)
qed

lemma py_int_truncates: "py_int p = Inr w \<Longrightarrow> truncated_toward_zero p w"
proof (cases p)
  case (PInt i)
  assume "py_int p = Inr w"
  with PInt show ?thesis by (simp add: truncated_toward_zero_def)
next
  case (PFloat f)
  assume "py_int p = Inr w"
  with PFloat show ?thesis
    using truncate_rat_toward_zero by (cases f) auto
qed

lemma stream_weight_Inr:
  assumes "stream_weight a b n = Inr w"
  shows "\<exists>s p. py_add a b = Inr s \<and> py_mul s n = Inr p \<and> truncated_toward_zero p w"
  using assms py_int_truncates
  by (auto simp: stream_weight_def split: sum.splits)

lemma split_stream_weights_Inr:
  assumes "split_stream_weights q = Inr (w_logic, w_ethic)"
  shows "stream_weight (pad_quality q ! 0) (pad_quality q ! 2) (pad_quality q ! 4) = Inr w_logic"
    and "stream_weight (pad_quality q ! 1) (pad_quality q ! 3) (pad_quality q ! 4) = Inr w_ethic"
  using assms by (auto simp: split_stream_weights_eq split: sum.splits)

lemma comment_clauses_Inr:
  assumes "comment_clauses c = Inr ks"
  shows "\<exists>w_logic w_ethic.
      split_stream_weights (get_quality_vector c) = Inr (w_logic, w_ethic)
      \<and> 4 \<le> length (get_content_vector c)
      \<and> ks = [\<lparr>var = Harm, polarity = py_eq_one (get_content_vector c ! 0), weight = w_logic\<rparr>,
              \<lparr>var = Intent, polarity = py_eq_one (get_content_vector c ! 1), weight = w_logic\<rparr>,
              \<lparr>var = Empathy, polarity = py_eq_one (get_content_vector c ! 2), weight = w_ethic\<rparr>,
              \<lparr>var = Apology, polarity = py_eq_one (get_content_vector c ! 3), weight = w_ethic\<rparr>]"
proof (cases "split_stream_weights (get_quality_vector c)")
  case (Inl err)
  with assms show ?thesis by (simp add: comment_clauses_weights_error)
next
  case (Inr ws)
  obtain w_logic w_ethic where ws: "ws = (w_logic, w_ethic)" by (cases ws)
  show ?thesis
  proof (cases "4 \<le> length (get_content_vector c)")
    case True
    from comment_clauses_long [OF Inr [unfolded ws] True] assms Inr ws True
    show ?thesis by simp
  next
    case False
    from comment_clauses_short [OF Inr False] assms show ?thesis by simp
  qed
qed

lemma py_eq_one_iff: "py_eq_one x \<longleftrightarrow> x = PInt 1 \<or> x = PFloat (Fin 1)"
  by (cases x rule: py_eq_one.cases) auto

lemma all_below_four: "(\<forall>i<(4::nat). P i) \<longleftrightarrow> P 0 \<and> P 1 \<and> P 2 \<and> P 3"
proof
  assume "\<forall>i<4. P i"
  then show "P 0 \<and> P 1 \<and> P 2 \<and> P 3" by simp
next
  assume p: "P 0 \<and> P 1 \<and> P 2 \<and> P 3"
  show "\<forall>i<4. P i"
  proof (intro allI impI)
    fix i :: nat
    assume "i < 4"
    then have "i = 0 \<or> i = 1 \<or> i = 2 \<or> i = 3" by arith
    with p show "P i" by auto
  qed
qed

subsection \<open>When a run returns\<close>

lemma content_long_enough_iff: "content_long_enough c \<longleftrightarrow> 4 \<le> length (get_content_vector c)"
  by (simp add: content_long_enough_def get_content_vector_def default_content_def
      split: option.splits)

lemma comment_clauses_ok_iff:
  "(\<exists>ks. comment_clauses c = Inr ks) \<longleftrightarrow> content_long_enough c \<and> weights_computable c"
  by (auto simp: comment_clauses_eval content_long_enough_iff weights_computable_def
      split: sum.splits prod.splits)

lemma add_comments_ok_iff:
  "(\<exists>soft'. add_comments soft cs = Inr soft') \<longleftrightarrow> (\<forall>c \<in> set cs. \<exists>ks. comment_clauses c = Inr ks)"
proof (induction cs arbitrary: soft)
  case Nil
  show ?case by simp
next
  case (Cons c cs)
  show ?case
  proof (cases "comment_clauses c")
    case (Inl err)
    then show ?thesis by simp
  next
    case (Inr ks)
    with Cons.IH [of "soft @ ks"] show ?thesis by simp
  qed
qed

lemma solve_ok_iff:
  "(\<exists>r. solve_moral_situation_split_stream opt post_data = Inr r) \<longleftrightarrow>
     (\<exists>soft. add_comments [] (get_comments post_data) = Inr soft)"
  "(\<exists>r. solve_moral_situation_split_stream_demo opt post_data = Inr r) \<longleftrightarrow>
     (\<exists>soft. add_comments [] (get_comments post_data) = Inr soft)"
  by (auto simp: solve_moral_situation_split_stream_def
      solve_moral_situation_split_stream_demo_def Let_def split: sum.splits option.splits)

lemma pad_quality_ints:
  assumes "list_all is_py_int (take 5 q)" and "i < 5"
  shows "is_py_int (pad_quality q ! i)"
proof (cases "i < length q")
  case True
  then have "pad_quality q ! i = q ! i"
    by (simp add: pad_quality_def nth_append)
  moreover have "q ! i \<in> set (take 5 q)"
    using True assms(2) by (metis in_set_conv_nth length_take min_less_iff_conj nth_take)
  ultimately show ?thesis
    using assms(1) by (simp add: list_all_iff)
next
  case False
  then have "pad_quality q ! i = PInt 1"
    using assms(2) by (simp add: pad_quality_def nth_append)
  then show ?thesis by simp
qed

lemma stream_weight_py_ints:
  assumes "is_py_int a" and "is_py_int b" and "is_py_int n"
  shows "\<exists>w. stream_weight a b n = Inr w"
  using assms by (cases a; cases b; cases n) (simp_all add: stream_weight_ints)

lemma integer_quality_computable:
  assumes "integer_quality c"
  shows "weights_computable c"
proof -
  have ints: "list_all is_py_int (take 5 (get_quality_vector c))"
    using assms
    by (simp add: integer_quality_def get_quality_vector_def default_quality_def
        split: option.splits)
  have "\<And>i. i < 5 \<Longrightarrow> is_py_int (pad_quality (get_quality_vector c) ! i)"
    using pad_quality_ints [OF ints] .
  then have p: "is_py_int (pad_quality (get_quality_vector c) ! 0)"
    "is_py_int (pad_quality (get_quality_vector c) ! 1)"
    "is_py_int (pad_quality (get_quality_vector c) ! 2)"
    "is_py_int (pad_quality (get_quality_vector c) ! 3)"
    "is_py_int (pad_quality (get_quality_vector c) ! 4)"
    by simp_all
  from stream_weight_py_ints [OF p(1) p(3) p(5)] stream_weight_py_ints [OF p(2) p(4) p(5)]
  show ?thesis
    by (auto simp: weights_computable_def split_stream_weights_eq)
qed

subsection \<open>Padding, failing comments, ties\<close>

lemma pad_quality_idem: "pad_quality (pad_quality q) = pad_quality q"
  by (simp add: pad_quality_def)

lemma split_stream_weights_padded:
  "split_stream_weights (pad_quality q) = split_stream_weights q"
  by (simp only: split_stream_weights_eq pad_quality_idem)

lemma comment_clauses_padded:
  "comment_clauses (c\<lparr>comment_quality_vector := Some (pad_quality (get_quality_vector c))\<rparr>)
     = comment_clauses c"
proof -
  let ?c = "c\<lparr>comment_quality_vector := Some (pad_quality (get_quality_vector c))\<rparr>"
  have q: "get_quality_vector ?c = pad_quality (get_quality_vector c)"
    by (simp add: get_quality_vector_def)
  have v: "get_content_vector ?c = get_content_vector c"
    by (simp add: get_content_vector_def)
  show ?thesis
    by (simp only: comment_clauses_eval q v split_stream_weights_padded)
qed

lemma processed_comment_clauses:
  assumes "comment_clauses c = Inr ks"
  shows "\<exists>w_logic w_ethic s_logic s_ethic p_logic p_ethic.
      py_add (pad_quality (get_quality_vector c) ! 0) (pad_quality (get_quality_vector c) ! 2)
        = Inr s_logic
    \<and> py_mul s_logic (pad_quality (get_quality_vector c) ! 4) = Inr p_logic
    \<and> truncated_toward_zero p_logic w_logic
    \<and> py_add (pad_quality (get_quality_vector c) ! 1) (pad_quality (get_quality_vector c) ! 3)
        = Inr s_ethic
    \<and> py_mul s_ethic (pad_quality (get_quality_vector c) ! 4) = Inr p_ethic
    \<and> truncated_toward_zero p_ethic w_ethic
    \<and> ks = [\<lparr>var = Harm, polarity = py_eq_one (get_content_vector c ! 0), weight = w_logic\<rparr>,
            \<lparr>var = Intent, polarity = py_eq_one (get_content_vector c ! 1), weight = w_logic\<rparr>,
            \<lparr>var = Empathy, polarity = py_eq_one (get_content_vector c ! 2), weight = w_ethic\<rparr>,
            \<lparr>var = Apology, polarity = py_eq_one (get_content_vector c ! 3), weight = w_ethic\<rparr>]
    \<and> (\<forall>c' ks'. get_quality_vector c' = get_quality_vector c \<and> comment_clauses c' = Inr ks'
          \<longrightarrow> map var ks' = [Harm, Intent, Empathy, Apology]
            \<and> map weight ks' = [w_logic, w_logic, w_ethic, w_ethic])"
proof -
  from comment_clauses_Inr [OF assms] obtain w_logic w_ethic where
    ws: "split_stream_weights (get_quality_vector c) = Inr (w_logic, w_ethic)"
    and ks: "ks = [\<lparr>var = Harm, polarity = py_eq_one (get_content_vector c ! 0), weight = w_logic\<rparr>,
            \<lparr>var = Intent, polarity = py_eq_one (get_content_vector c ! 1), weight = w_logic\<rparr>,
            \<lparr>var = Empathy, polarity = py_eq_one (get_content_vector c ! 2), weight = w_ethic\<rparr>,
            \<lparr>var = Apology, polarity = py_eq_one (get_content_vector c ! 3), weight = w_ethic\<rparr>]"
    by blast
  from stream_weight_Inr [OF split_stream_weights_Inr(1) [OF ws]] obtain s_logic p_logic where
    logic: "py_add (pad_quality (get_quality_vector c) ! 0) (pad_quality (get_quality_vector c) ! 2)
        = Inr s_logic"
      "py_mul s_logic (pad_quality (get_quality_vector c) ! 4) = Inr p_logic"
      "truncated_toward_zero p_logic w_logic"
    by blast
  from stream_weight_Inr [OF split_stream_weights_Inr(2) [OF ws]] obtain s_ethic p_ethic where
    ethic: "py_add (pad_quality (get_quality_vector c) ! 1) (pad_quality (get_quality_vector c) ! 3)
        = Inr s_ethic"
      "py_mul s_ethic (pad_quality (get_quality_vector c) ! 4) = Inr p_ethic"
      "truncated_toward_zero p_ethic w_ethic"
    by blast
  have same: "\<forall>c' ks'. get_quality_vector c' = get_quality_vector c \<and> comment_clauses c' = Inr ks'
          \<longrightarrow> map var ks' = [Harm, Intent, Empathy, Apology]
            \<and> map weight ks' = [w_logic, w_logic, w_ethic, w_ethic]"
  proof (intro allI impI)
    fix c' ks'
    assume h: "get_quality_vector c' = get_quality_vector c \<and> comment_clauses c' = Inr ks'"
    from comment_clauses_Inr [of c' ks'] h ws
    show "map var ks' = [Harm, Intent, Empathy, Apology]
            \<and> map weight ks' = [w_logic, w_logic, w_ethic, w_ethic]"
      by auto
  qed
  from logic ethic ks same show ?thesis by blast
qed

lemma weights_not_computable:
  assumes "\<not> weights_computable c"
  shows "\<exists>err. split_stream_weights (get_quality_vector c) = Inl err \<and> comment_clauses c = Inl err"
proof (cases "split_stream_weights (get_quality_vector c)")
  case (Inl err)
  then show ?thesis by (simp add: comment_clauses_weights_error)
next
  case (Inr ws)
  with assms show ?thesis by (simp add: weights_computable_def)
qed

lemma content_too_short:
  assumes "weights_computable c" and "\<not> content_long_enough c"
  shows "comment_clauses c = Inl IndexError"
proof (cases "split_stream_weights (get_quality_vector c)")
  case (Inl err)
  with assms(1) show ?thesis by (simp add: weights_computable_def)
next
  case (Inr ws)
  from assms(2) have "\<not> 4 \<le> length (get_content_vector c)"
    by (simp add: content_long_enough_iff)
  with Inr show ?thesis by (rule comment_clauses_short)
qed

lemma split_stream_weights_comment_short:
  "split_stream_weights (get_quality_vector comment_short) = Inr (2, 2)"
  by (simp add: comment_short_def get_quality_vector_def default_quality_def
      split_stream_weights_eq pad_quality_def stream_weight_ints)

lemma split_stream_weights_comment_nan:
  "split_stream_weights (get_quality_vector comment_nan) = Inl ValueError"
  by (simp add: comment_nan_def get_quality_vector_def split_stream_weights_eq pad_quality_def
      stream_weight_def int_to_float_examples)










section \<open>The claims\<close>

text \<open>
  C1. For a post with at least one comment whose clauses are built, the assignment of the
  optimizer has a total satisfied weight at least that of every assignment, and it is the
  assignment both variants read the verdict from.
\<close>

theorem optimizer_assignment_maximal:
  assumes "get_comments post_data \<noteq> []"
    and "add_comments [] (get_comments post_data) = Inr soft"
  shows "\<exists>b. weighted_optimizer soft = Some b
      \<and> (\<forall>a. satisfied_weight soft a \<le> satisfied_weight soft b)
      \<and> solve_moral_situation_split_stream weighted_optimizer post_data =
          Inr \<lparr>opt_soft = soft, opt_checked = True, returned = final_rules b\<rparr>
      \<and> solve_moral_situation_split_stream_demo weighted_optimizer post_data =
          Inr \<lparr>opt_soft = soft, opt_checked = True, returned = final_rules_demo b\<rparr>"
proof -
  obtain b where b: "weighted_optimizer soft = Some b"
    using weighted_optimizer_total by blast
  have "\<forall>a. satisfied_weight soft a \<le> satisfied_weight soft b"
    using weighted_optimizer_maximal [OF b] by blast
  moreover have "solve_moral_situation_split_stream weighted_optimizer post_data =
      Inr \<lparr>opt_soft = soft, opt_checked = True, returned = final_rules b\<rparr>"
    using solve_nonempty(1) [OF assms, of weighted_optimizer] b by simp
  moreover have "solve_moral_situation_split_stream_demo weighted_optimizer post_data =
      Inr \<lparr>opt_soft = soft, opt_checked = True, returned = final_rules_demo b\<rparr>"
    using solve_nonempty(2) [OF assms, of weighted_optimizer] b by simp
  ultimately show ?thesis using b by blast
qed

theorem optimizer_assignment_maximal_witness:
  "get_comments post_conflict \<noteq> []
   \<and> add_comments [] (get_comments post_conflict) = Inr clauses_conflict
   \<and> (\<exists>b. weighted_optimizer clauses_conflict = Some b
      \<and> (\<forall>a. satisfied_weight clauses_conflict a \<le> satisfied_weight clauses_conflict b)
      \<and> solve_moral_situation_split_stream weighted_optimizer post_conflict =
          Inr \<lparr>opt_soft = clauses_conflict, opt_checked = True, returned = final_rules b\<rparr>
      \<and> solve_moral_situation_split_stream_demo weighted_optimizer post_conflict =
          Inr \<lparr>opt_soft = clauses_conflict, opt_checked = True, returned = final_rules_demo b\<rparr>)"
proof -
  have h1: "get_comments post_conflict \<noteq> []"
    by (simp add: get_comments_def post_conflict_def)
  note h2 = add_comments_post_conflict
  from optimizer_assignment_maximal [OF h1 h2] h1 h2 show ?thesis
    by (intro conjI)
qed

text \<open>
  C3. A post whose comment sequence is empty, or which has no \<^verbatim>\<open>processed_comments\<close>
  key at all, gets the verdict NoData whatever its other fields and whatever the solver
  would answer: no soft clause is added and \<^verbatim>\<open>check()\<close> is not called.
\<close>

theorem no_comments_no_data:
  fixes post_data :: "'a post_scheme"
  assumes "processed_comments post_data = None \<or> processed_comments post_data = Some []"
  shows "solve_moral_situation_split_stream opt post_data =
        Inr \<lparr>opt_soft = [], opt_checked = False, returned = Some NoData\<rparr>
      \<and> solve_moral_situation_split_stream_demo opt post_data =
        Inr \<lparr>opt_soft = [], opt_checked = False, returned = Some NoData\<rparr>"
proof -
  from assms have "get_comments post_data = []"
    by (auto simp: get_comments_def)
  then show ?thesis
    by (simp add: solve_no_comments)
qed

theorem no_comments_no_data_witness:
  "(processed_comments post_missing = None \<or> processed_comments post_missing = Some [])
   \<and> solve_moral_situation_split_stream weighted_optimizer post_missing =
        Inr \<lparr>opt_soft = [], opt_checked = False, returned = Some NoData\<rparr>
   \<and> solve_moral_situation_split_stream_demo weighted_optimizer post_missing =
        Inr \<lparr>opt_soft = [], opt_checked = False, returned = Some NoData\<rparr>
   \<and> (processed_comments post_empty = None \<or> processed_comments post_empty = Some [])
   \<and> solve_moral_situation_split_stream no_model post_empty =
        Inr \<lparr>opt_soft = [], opt_checked = False, returned = Some NoData\<rparr>
   \<and> solve_moral_situation_split_stream_demo no_model post_empty =
        Inr \<lparr>opt_soft = [], opt_checked = False, returned = Some NoData\<rparr>"
proof -
  have m: "processed_comments post_missing = None \<or> processed_comments post_missing = Some []"
    by (simp add: post_missing_def)
  have e: "processed_comments post_empty = None \<or> processed_comments post_empty = Some []"
    by (simp add: post_empty_def)
  from no_comments_no_data [OF m, of weighted_optimizer] no_comments_no_data [OF e, of no_model]
    m e
  show ?thesis by blast
qed



text \<open>
  C6. On every assignment the two decision trees agree where harm and intent hold (YTA)
  and where harm holds and nothing else does (ESH); in the two remaining branches the
  variants give NTA and NAH the other way round, so that each tree is the other one with
  the labels NTA and NAH exchanged.
\<close>

theorem final_rules_variants:
  "(is_harm m \<and> is_intent m \<longrightarrow>
      final_rules m = Some YTA \<and> final_rules_demo m = Some YTA)
   \<and> (is_harm m \<and> \<not> is_intent m \<and> \<not> is_empathy m \<and> \<not> is_apology m \<longrightarrow>
      final_rules m = Some ESH \<and> final_rules_demo m = Some ESH)
   \<and> (\<not> is_harm m \<longrightarrow>
      final_rules m = Some NTA \<and> final_rules_demo m = Some NAH)
   \<and> (is_harm m \<and> \<not> is_intent m \<and> (is_empathy m \<or> is_apology m) \<longrightarrow>
      final_rules m = Some NAH \<and> final_rules_demo m = Some NTA)
   \<and> final_rules_demo m = map_option swap_nta_nah (final_rules m)
   \<and> (final_rules m \<noteq> final_rules_demo m \<longleftrightarrow>
        \<not> is_harm m \<or> (is_harm m \<and> \<not> is_intent m \<and> (is_empathy m \<or> is_apology m)))"
  by (simp add: final_rules_def final_rules_demo_def swap_nta_nah_def)

theorem final_rules_variants_witness:
  "final_rules \<lparr>is_harm = True, is_intent = True, is_empathy = False, is_apology = True\<rparr> = Some YTA
   \<and> final_rules_demo \<lparr>is_harm = True, is_intent = True, is_empathy = False, is_apology = True\<rparr> = Some YTA
   \<and> final_rules \<lparr>is_harm = True, is_intent = False, is_empathy = False, is_apology = False\<rparr> = Some ESH
   \<and> final_rules_demo \<lparr>is_harm = True, is_intent = False, is_empathy = False, is_apology = False\<rparr> = Some ESH
   \<and> final_rules \<lparr>is_harm = False, is_intent = True, is_empathy = False, is_apology = False\<rparr> = Some NTA
   \<and> final_rules_demo \<lparr>is_harm = False, is_intent = True, is_empathy = False, is_apology = False\<rparr> = Some NAH
   \<and> final_rules \<lparr>is_harm = True, is_intent = False, is_empathy = True, is_apology = False\<rparr> = Some NAH
   \<and> final_rules_demo \<lparr>is_harm = True, is_intent = False, is_empathy = True, is_apology = False\<rparr> = Some NTA"
  using
    final_rules_variants [of "\<lparr>is_harm = True, is_intent = True, is_empathy = False, is_apology = True\<rparr>"]
    final_rules_variants [of "\<lparr>is_harm = True, is_intent = False, is_empathy = False, is_apology = False\<rparr>"]
    final_rules_variants [of "\<lparr>is_harm = False, is_intent = True, is_empathy = False, is_apology = False\<rparr>"]
    final_rules_variants [of "\<lparr>is_harm = True, is_intent = False, is_empathy = True, is_apology = False\<rparr>"]
  by simp

text \<open>
  C7. A quality vector with fewer than five entries is used as the input followed by 1s,
  of length exactly five; a vector with five or more entries is used as it is, only its
  first five entries are read, and the weights are those of its first five entries. The
  padded vector is the one the weights are computed from: the logic weight from its
  entries 0, 2 and 4, the ethic weight from its entries 1, 3 and 4, and the clauses of a
  comment are those of the comment with its quality vector padded.
\<close>

theorem quality_padding:
  "(length q < 5 \<longrightarrow>
      length (pad_quality q) = 5 \<and> pad_quality q = q @ replicate (5 - length q) (PInt 1)
      \<and> split_stream_weights q = split_stream_weights (q @ replicate (5 - length q) (PInt 1)))
   \<and> (5 \<le> length q \<longrightarrow>
      pad_quality q = q
      \<and> (\<forall>i < 5. getitem (pad_quality q) i = Inr (q ! i))
      \<and> split_stream_weights q = split_stream_weights (take 5 q))
   \<and> split_stream_weights q =
       (case stream_weight (pad_quality q ! 0) (pad_quality q ! 2) (pad_quality q ! 4) of
          Inl err \<Rightarrow> Inl err
        | Inr w_logic \<Rightarrow>
            (case stream_weight (pad_quality q ! 1) (pad_quality q ! 3) (pad_quality q ! 4) of
               Inl err \<Rightarrow> Inl err
             | Inr w_ethic \<Rightarrow> Inr (w_logic, w_ethic)))
   \<and> comment_clauses c =
       comment_clauses (c\<lparr>comment_quality_vector := Some (pad_quality (get_quality_vector c))\<rparr>)"
proof (intro conjI impI)
  assume "length q < 5"
  then show "length (pad_quality q) = 5" by (simp add: pad_quality_def)
next
  assume "length q < 5"
  then show "pad_quality q = q @ replicate (5 - length q) (PInt 1)"
    by (simp add: pad_quality_def)
next
  assume "length q < 5"
  then have "q @ replicate (5 - length q) (PInt 1) = pad_quality q"
    by (simp add: pad_quality_def)
  then show "split_stream_weights q = split_stream_weights (q @ replicate (5 - length q) (PInt 1))"
    by (simp only: split_stream_weights_padded)
next
  assume "5 \<le> length q"
  then show "pad_quality q = q" by (rule pad_quality_long)
next
  assume "5 \<le> length q"
  then show "\<forall>i < 5. getitem (pad_quality q) i = Inr (q ! i)"
    by (simp add: pad_quality_long getitem_def)
next
  assume long: "5 \<le> length q"
  show "split_stream_weights q = split_stream_weights (take 5 q)"
    by (simp add: split_stream_weights_eq pad_quality_long [OF long] pad_quality_take [OF long]
        cong: sum.case_cong)
next
  show "split_stream_weights q =
       (case stream_weight (pad_quality q ! 0) (pad_quality q ! 2) (pad_quality q ! 4) of
          Inl err \<Rightarrow> Inl err
        | Inr w_logic \<Rightarrow>
            (case stream_weight (pad_quality q ! 1) (pad_quality q ! 3) (pad_quality q ! 4) of
               Inl err \<Rightarrow> Inl err
             | Inr w_ethic \<Rightarrow> Inr (w_logic, w_ethic)))"
    by (rule split_stream_weights_eq)
next
  show "comment_clauses c =
       comment_clauses (c\<lparr>comment_quality_vector := Some (pad_quality (get_quality_vector c))\<rparr>)"
    by (rule comment_clauses_padded [symmetric])
qed

theorem quality_padding_witness:
  "length [PInt 2, PInt 0, PInt 3] < 5
   \<and> length (pad_quality [PInt 2, PInt 0, PInt 3]) = 5
   \<and> pad_quality [PInt 2, PInt 0, PInt 3] = [PInt 2, PInt 0, PInt 3, PInt 1, PInt 1]
   \<and> split_stream_weights [PInt 2, PInt 0, PInt 3]
       = split_stream_weights [PInt 2, PInt 0, PInt 3, PInt 1, PInt 1]
   \<and> split_stream_weights [PInt 2, PInt 0, PInt 3] = Inr (5, 1)
   \<and> 5 \<le> length [PInt 1, PInt 2, PInt 3, PInt 4, PInt 5, PInt 6, PInt 7]
   \<and> pad_quality [PInt 1, PInt 2, PInt 3, PInt 4, PInt 5, PInt 6, PInt 7]
       = [PInt 1, PInt 2, PInt 3, PInt 4, PInt 5, PInt 6, PInt 7]
   \<and> split_stream_weights [PInt 1, PInt 2, PInt 3, PInt 4, PInt 5, PInt 6, PInt 7]
       = split_stream_weights [PInt 1, PInt 2, PInt 3, PInt 4, PInt 5]
   \<and> split_stream_weights [PInt 1, PInt 2, PInt 3, PInt 4, PInt 5, PInt 6, PInt 7]
       = Inr (20, 30)
   \<and> comment_clauses
        \<lparr>comment_content_vector = None, comment_quality_vector = Some [PInt 2, PInt 0, PInt 3]\<rparr>
       = comment_clauses
        \<lparr>comment_content_vector = None,
          comment_quality_vector = Some [PInt 2, PInt 0, PInt 3, PInt 1, PInt 1]\<rparr>"
proof -
  let ?c = "\<lparr>comment_content_vector = None,
      comment_quality_vector = Some [PInt 2, PInt 0, PInt 3]\<rparr>"
  have short: "length [PInt 2, PInt 0, PInt 3] < 5"
    and long: "5 \<le> length [PInt 1, PInt 2, PInt 3, PInt 4, PInt 5, PInt 6, PInt 7]"
    by simp_all
  note s = quality_padding [of "[PInt 2, PInt 0, PInt 3]" ?c]
  note l = quality_padding [of "[PInt 1, PInt 2, PInt 3, PInt 4, PInt 5, PInt 6, PInt 7]" ?c]
  note s1 = s [THEN conjunct1, rule_format, OF short]
  note l1 = l [THEN conjunct2, THEN conjunct1, rule_format, OF long]
  have pad: "pad_quality [PInt 2, PInt 0, PInt 3] = [PInt 2, PInt 0, PInt 3, PInt 1, PInt 1]"
    using s1 [THEN conjunct2, THEN conjunct1] by (simp add: numeral_eq_Suc)
  have eq: "split_stream_weights [PInt 2, PInt 0, PInt 3]
       = split_stream_weights [PInt 2, PInt 0, PInt 3, PInt 1, PInt 1]"
    using s1 [THEN conjunct2, THEN conjunct2] by (simp add: numeral_eq_Suc)
  have w: "split_stream_weights [PInt 2, PInt 0, PInt 3] = Inr (5, 1)"
    using s [THEN conjunct2, THEN conjunct2, THEN conjunct1]
    by (simp add: pad stream_weight_ints)
  have w7: "split_stream_weights [PInt 1, PInt 2, PInt 3, PInt 4, PInt 5, PInt 6, PInt 7]
       = Inr (20, 30)"
    using l [THEN conjunct2, THEN conjunct2, THEN conjunct1]
    by (simp add: l1 [THEN conjunct1] stream_weight_ints)
  have t: "split_stream_weights [PInt 1, PInt 2, PInt 3, PInt 4, PInt 5, PInt 6, PInt 7]
       = split_stream_weights [PInt 1, PInt 2, PInt 3, PInt 4, PInt 5]"
    using l1 [THEN conjunct2, THEN conjunct2] by simp
  have cc: "comment_clauses ?c = comment_clauses
        \<lparr>comment_content_vector = None,
          comment_quality_vector = Some [PInt 2, PInt 0, PInt 3, PInt 1, PInt 1]\<rparr>"
    using s [THEN conjunct2, THEN conjunct2, THEN conjunct2]
    by (simp add: get_quality_vector_def pad)
  from short s1 [THEN conjunct1] pad eq w long l1 [THEN conjunct1] t w7 cc
  show ?thesis by (intro conjI)
qed

text \<open>
  C8. Scenario A: one comment with content \<open>[1,1,0,0]\<close> and quality \<open>[1,1,1,1,1]\<close>
  has both weights equal to 2; its four clauses favour harm, intent, no empathy and no
  apology, each with weight 2; exactly one assignment is maximal, the one with harm and
  intent and neither empathy nor apology; and with a solver that returns a maximal
  assignment both variants return YTA.
\<close>

theorem scenario_a:
  "split_stream_weights [PInt 1, PInt 1, PInt 1, PInt 1, PInt 1] = Inr (2, 2)
   \<and> comment_clauses comment_a = Inr clauses_a
   \<and> clauses_a =
       [\<lparr>var = Harm, polarity = True, weight = 2\<rparr>,
        \<lparr>var = Intent, polarity = True, weight = 2\<rparr>,
        \<lparr>var = Empathy, polarity = False, weight = 2\<rparr>,
        \<lparr>var = Apology, polarity = False, weight = 2\<rparr>]
   \<and> (\<forall>b. (\<forall>a. satisfied_weight clauses_a a \<le> satisfied_weight clauses_a b) \<longleftrightarrow>
          b = \<lparr>is_harm = True, is_intent = True, is_empathy = False, is_apology = False\<rparr>)
   \<and> (\<forall>opt b. opt clauses_a = Some b
          \<and> (\<forall>a. satisfied_weight clauses_a a \<le> satisfied_weight clauses_a b) \<longrightarrow>
        solve_moral_situation_split_stream opt post_a =
          Inr \<lparr>opt_soft = clauses_a, opt_checked = True, returned = Some YTA\<rparr>
        \<and> solve_moral_situation_split_stream_demo opt post_a =
          Inr \<lparr>opt_soft = clauses_a, opt_checked = True, returned = Some YTA\<rparr>)"
proof (intro conjI allI impI)
  show "split_stream_weights [PInt 1, PInt 1, PInt 1, PInt 1, PInt 1] = Inr (2, 2)"
    by (simp add: split_stream_weights_eq pad_quality_def stream_weight_ints)
next
  show "comment_clauses comment_a = Inr clauses_a"
    by (simp add: comment_a_def clauses_a_def comment_clauses_eval
        get_content_vector_def get_quality_vector_def split_stream_weights_eq
        pad_quality_def stream_weight_ints)
next
  show "clauses_a =
       [\<lparr>var = Harm, polarity = True, weight = 2\<rparr>,
        \<lparr>var = Intent, polarity = True, weight = 2\<rparr>,
        \<lparr>var = Empathy, polarity = False, weight = 2\<rparr>,
        \<lparr>var = Apology, polarity = False, weight = 2\<rparr>]"
    by (rule clauses_a_def)
next
  fix b
  show "(\<forall>a. satisfied_weight clauses_a a \<le> satisfied_weight clauses_a b) \<longleftrightarrow>
          b = \<lparr>is_harm = True, is_intent = True, is_empathy = False, is_apology = False\<rparr>"
    by (rule clauses_a_unique_maximum)
next
  fix opt :: optimizer and b
  assume h: "opt clauses_a = Some b
      \<and> (\<forall>a. satisfied_weight clauses_a a \<le> satisfied_weight clauses_a b)"
  then have b: "b = \<lparr>is_harm = True, is_intent = True, is_empathy = False, is_apology = False\<rparr>"
    using clauses_a_unique_maximum [of b] by blast
  show "solve_moral_situation_split_stream opt post_a =
          Inr \<lparr>opt_soft = clauses_a, opt_checked = True, returned = Some YTA\<rparr>"
    using solve_nonempty(1) [OF get_comments_post_a add_comments_post_a, of opt] h b
    by (simp add: final_rules_def)
  show "solve_moral_situation_split_stream_demo opt post_a =
          Inr \<lparr>opt_soft = clauses_a, opt_checked = True, returned = Some YTA\<rparr>"
    using solve_nonempty(2) [OF get_comments_post_a add_comments_post_a, of opt] h b
    by (simp add: final_rules_demo_def)
qed

theorem scenario_a_witness:
  "weighted_optimizer clauses_a =
     Some \<lparr>is_harm = True, is_intent = True, is_empathy = False, is_apology = False\<rparr>
   \<and> solve_moral_situation_split_stream weighted_optimizer post_a =
       Inr \<lparr>opt_soft = clauses_a, opt_checked = True, returned = Some YTA\<rparr>
   \<and> solve_moral_situation_split_stream_demo weighted_optimizer post_a =
       Inr \<lparr>opt_soft = clauses_a, opt_checked = True, returned = Some YTA\<rparr>"
proof -
  obtain b where b: "weighted_optimizer clauses_a = Some b"
    using weighted_optimizer_total by blast
  have best: "\<forall>a. satisfied_weight clauses_a a \<le> satisfied_weight clauses_a b"
    using weighted_optimizer_maximal [OF b] by blast
  note unique = scenario_a [THEN conjunct2, THEN conjunct2, THEN conjunct2, THEN conjunct1,
      rule_format]
  note verdicts = scenario_a [THEN conjunct2, THEN conjunct2, THEN conjunct2, THEN conjunct2,
      rule_format]
  have "b = \<lparr>is_harm = True, is_intent = True, is_empathy = False, is_apology = False\<rparr>"
    using unique [of b] best by (rule iffD1)
  with b verdicts [of weighted_optimizer b, OF conjI [OF b best]] show ?thesis
    by simp
qed




text \<open>
  C2, as stated, fails: not every comment adds four clauses. With a content vector of two
  entries the harm and intent clauses are added and reading the third entry raises
  IndexError; with a quality vector whose logic sum is not a number the cast raises
  ValueError before any clause is added.
\<close>

theorem short_comment_not_four_clauses:
  "split_stream_weights (get_quality_vector comment_short) = Inr (2, 2)
   \<and> vote (get_content_vector comment_short) 0 Harm 2
       = Inr \<lparr>var = Harm, polarity = True, weight = 2\<rparr>
   \<and> vote (get_content_vector comment_short) 1 Intent 2
       = Inr \<lparr>var = Intent, polarity = True, weight = 2\<rparr>
   \<and> vote (get_content_vector comment_short) 2 Empathy 2 = Inl IndexError
   \<and> comment_clauses comment_short = Inl IndexError
   \<and> split_stream_weights (get_quality_vector comment_nan) = Inl ValueError
   \<and> comment_clauses comment_nan = Inl ValueError"
proof -
  have v: "get_content_vector comment_short = [PInt 1, PInt 1]"
    by (simp add: get_content_vector_def comment_short_def)
  have "vote (get_content_vector comment_short) 0 Harm 2
       = Inr \<lparr>var = Harm, polarity = True, weight = 2\<rparr>"
    and "vote (get_content_vector comment_short) 1 Intent 2
       = Inr \<lparr>var = Intent, polarity = True, weight = 2\<rparr>"
    and "vote (get_content_vector comment_short) 2 Empathy 2 = Inl IndexError"
    by (simp_all add: v vote_def getitem_def)
  moreover have "comment_clauses comment_short = Inl IndexError"
    by (simp add: comment_clauses_eval split_stream_weights_comment_short v)
  moreover have "comment_clauses comment_nan = Inl ValueError"
    by (simp add: comment_clauses_eval split_stream_weights_comment_nan)
  ultimately show ?thesis
    using split_stream_weights_comment_short split_stream_weights_comment_nan
    by (intro conjI)
qed

text \<open>
  C2, amended. A comment whose content vector is absent or has at least four entries and
  whose two weights the cast to int can produce adds exactly four soft clauses, on harm,
  intent, empathy and apology in this order. Harm and intent carry the logic weight, the
  product \<open>(justification + deliberative) * non_biased\<close> cut to the integer next to it
  toward zero; empathy and apology carry the ethic weight, the same with
  \<open>(ethic + fairness) * non_biased\<close>. The weights are those of the quality vector alone:
  a comment with the same quality vector gets the same four weights whatever it votes
  for. Every other comment ends the run with an error instead: the error of the cast
  when a weight cannot be computed, before any clause is added, and otherwise IndexError
  for the content vector shorter than four.
\<close>

theorem four_weighted_clauses:
  "(content_long_enough c \<and> weights_computable c \<longrightarrow>
      (\<exists>ks w_logic w_ethic s_logic s_ethic p_logic p_ethic.
          comment_clauses c = Inr ks
        \<and> py_add (pad_quality (get_quality_vector c) ! 0)
            (pad_quality (get_quality_vector c) ! 2) = Inr s_logic
        \<and> py_mul s_logic (pad_quality (get_quality_vector c) ! 4) = Inr p_logic
        \<and> truncated_toward_zero p_logic w_logic
        \<and> py_add (pad_quality (get_quality_vector c) ! 1)
            (pad_quality (get_quality_vector c) ! 3) = Inr s_ethic
        \<and> py_mul s_ethic (pad_quality (get_quality_vector c) ! 4) = Inr p_ethic
        \<and> truncated_toward_zero p_ethic w_ethic
        \<and> ks = [\<lparr>var = Harm, polarity = py_eq_one (get_content_vector c ! 0),
                  weight = w_logic\<rparr>,
                \<lparr>var = Intent, polarity = py_eq_one (get_content_vector c ! 1),
                  weight = w_logic\<rparr>,
                \<lparr>var = Empathy, polarity = py_eq_one (get_content_vector c ! 2),
                  weight = w_ethic\<rparr>,
                \<lparr>var = Apology, polarity = py_eq_one (get_content_vector c ! 3),
                  weight = w_ethic\<rparr>]
        \<and> (\<forall>c' ks'. get_quality_vector c' = get_quality_vector c
              \<and> comment_clauses c' = Inr ks'
              \<longrightarrow> map var ks' = [Harm, Intent, Empathy, Apology]
                \<and> map weight ks' = [w_logic, w_logic, w_ethic, w_ethic])))
   \<and> (\<not> weights_computable c \<longrightarrow>
        (\<exists>err. split_stream_weights (get_quality_vector c) = Inl err
           \<and> comment_clauses c = Inl err))
   \<and> (weights_computable c \<and> \<not> content_long_enough c \<longrightarrow>
        comment_clauses c = Inl IndexError)"
proof (intro conjI impI)
  assume "content_long_enough c \<and> weights_computable c"
  then obtain ks where ks: "comment_clauses c = Inr ks"
    using comment_clauses_ok_iff [of c] by blast
  from processed_comment_clauses [OF ks] ks
  show "\<exists>ks w_logic w_ethic s_logic s_ethic p_logic p_ethic.
          comment_clauses c = Inr ks
        \<and> py_add (pad_quality (get_quality_vector c) ! 0)
            (pad_quality (get_quality_vector c) ! 2) = Inr s_logic
        \<and> py_mul s_logic (pad_quality (get_quality_vector c) ! 4) = Inr p_logic
        \<and> truncated_toward_zero p_logic w_logic
        \<and> py_add (pad_quality (get_quality_vector c) ! 1)
            (pad_quality (get_quality_vector c) ! 3) = Inr s_ethic
        \<and> py_mul s_ethic (pad_quality (get_quality_vector c) ! 4) = Inr p_ethic
        \<and> truncated_toward_zero p_ethic w_ethic
        \<and> ks = [\<lparr>var = Harm, polarity = py_eq_one (get_content_vector c ! 0),
                  weight = w_logic\<rparr>,
                \<lparr>var = Intent, polarity = py_eq_one (get_content_vector c ! 1),
                  weight = w_logic\<rparr>,
                \<lparr>var = Empathy, polarity = py_eq_one (get_content_vector c ! 2),
                  weight = w_ethic\<rparr>,
                \<lparr>var = Apology, polarity = py_eq_one (get_content_vector c ! 3),
                  weight = w_ethic\<rparr>]
        \<and> (\<forall>c' ks'. get_quality_vector c' = get_quality_vector c
              \<and> comment_clauses c' = Inr ks'
              \<longrightarrow> map var ks' = [Harm, Intent, Empathy, Apology]
                \<and> map weight ks' = [w_logic, w_logic, w_ethic, w_ethic])"
    by (elim exE conjE) (intro exI conjI)
next
  assume "\<not> weights_computable c"
  then show "\<exists>err. split_stream_weights (get_quality_vector c) = Inl err
           \<and> comment_clauses c = Inl err"
    by (rule weights_not_computable)
next
  assume "weights_computable c \<and> \<not> content_long_enough c"
  then show "comment_clauses c = Inl IndexError"
    using content_too_short by blast
qed

theorem four_weighted_clauses_witness:
  "content_long_enough comment_float \<and> weights_computable comment_float
   \<and> comment_clauses comment_float = Inr clauses_float
   \<and> (\<exists>ks w_logic w_ethic s_logic s_ethic p_logic p_ethic.
          comment_clauses comment_float = Inr ks
        \<and> py_add (pad_quality (get_quality_vector comment_float) ! 0)
            (pad_quality (get_quality_vector comment_float) ! 2) = Inr s_logic
        \<and> py_mul s_logic (pad_quality (get_quality_vector comment_float) ! 4) = Inr p_logic
        \<and> truncated_toward_zero p_logic w_logic
        \<and> py_add (pad_quality (get_quality_vector comment_float) ! 1)
            (pad_quality (get_quality_vector comment_float) ! 3) = Inr s_ethic
        \<and> py_mul s_ethic (pad_quality (get_quality_vector comment_float) ! 4) = Inr p_ethic
        \<and> truncated_toward_zero p_ethic w_ethic
        \<and> ks = [\<lparr>var = Harm, polarity = py_eq_one (get_content_vector comment_float ! 0),
                  weight = w_logic\<rparr>,
                \<lparr>var = Intent, polarity = py_eq_one (get_content_vector comment_float ! 1),
                  weight = w_logic\<rparr>,
                \<lparr>var = Empathy, polarity = py_eq_one (get_content_vector comment_float ! 2),
                  weight = w_ethic\<rparr>,
                \<lparr>var = Apology, polarity = py_eq_one (get_content_vector comment_float ! 3),
                  weight = w_ethic\<rparr>])
   \<and> weights_computable comment_short
   \<and> content_long_enough comment_short = False
   \<and> comment_clauses comment_short = Inl IndexError
   \<and> weights_computable comment_nan = False
   \<and> (\<exists>err. split_stream_weights (get_quality_vector comment_nan) = Inl err
         \<and> comment_clauses comment_nan = Inl err)"
proof -
  have lf: "content_long_enough comment_float"
    by (simp add: content_long_enough_def comment_float_def)
  have wf: "weights_computable comment_float"
    by (simp add: weights_computable_def split_stream_weights_comment_float)
  have ws: "weights_computable comment_short"
    by (simp add: weights_computable_def split_stream_weights_comment_short)
  have ls: "content_long_enough comment_short = False"
    by (simp add: content_long_enough_def comment_short_def)
  have wn: "weights_computable comment_nan = False"
    by (simp add: weights_computable_def split_stream_weights_comment_nan)
  note f = four_weighted_clauses [of comment_float, THEN conjunct1, rule_format, OF conjI [OF lf wf]]
  from ls have ls': "\<not> content_long_enough comment_short" by simp
  from wn have wn': "\<not> weights_computable comment_nan" by simp
  note s = four_weighted_clauses [of comment_short, THEN conjunct2, THEN conjunct2, rule_format,
      OF conjI [OF ws ls']]
  note n = four_weighted_clauses [of comment_nan, THEN conjunct2, THEN conjunct1, rule_format,
      OF wn']
  have ex: "\<exists>ks w_logic w_ethic s_logic s_ethic p_logic p_ethic.
          comment_clauses comment_float = Inr ks
        \<and> py_add (pad_quality (get_quality_vector comment_float) ! 0)
            (pad_quality (get_quality_vector comment_float) ! 2) = Inr s_logic
        \<and> py_mul s_logic (pad_quality (get_quality_vector comment_float) ! 4) = Inr p_logic
        \<and> truncated_toward_zero p_logic w_logic
        \<and> py_add (pad_quality (get_quality_vector comment_float) ! 1)
            (pad_quality (get_quality_vector comment_float) ! 3) = Inr s_ethic
        \<and> py_mul s_ethic (pad_quality (get_quality_vector comment_float) ! 4) = Inr p_ethic
        \<and> truncated_toward_zero p_ethic w_ethic
        \<and> ks = [\<lparr>var = Harm, polarity = py_eq_one (get_content_vector comment_float ! 0),
                  weight = w_logic\<rparr>,
                \<lparr>var = Intent, polarity = py_eq_one (get_content_vector comment_float ! 1),
                  weight = w_logic\<rparr>,
                \<lparr>var = Empathy, polarity = py_eq_one (get_content_vector comment_float ! 2),
                  weight = w_ethic\<rparr>,
                \<lparr>var = Apology, polarity = py_eq_one (get_content_vector comment_float ! 3),
                  weight = w_ethic\<rparr>]"
    using f by (elim exE conjE) (intro exI conjI)
  from lf wf comment_clauses_comment_float ex ws ls s wn n
  show ?thesis by (intro conjI)
qed

text \<open>
  C10. A clause is positive exactly when the content flag it is made from equals 1 (the
  int 1 or the float 1.0); every other number, such as 0, 2, a negative number or a
  fraction, gives the negated clause. No value of a flag is rejected: with any content
  vector of four or more entries the comment is processed, with the same weights.
\<close>

theorem polarity_iff_flag_is_one:
  assumes "comment_clauses c = Inr ks"
  shows "length ks = 4
    \<and> map var ks = [Harm, Intent, Empathy, Apology]
    \<and> (\<forall>i<4. polarity (ks ! i) \<longleftrightarrow>
          get_content_vector c ! i = PInt 1 \<or> get_content_vector c ! i = PFloat (Fin 1))
    \<and> (\<forall>v'. 4 \<le> length v' \<longrightarrow>
          (\<exists>ks'. comment_clauses (c\<lparr>comment_content_vector := Some v'\<rparr>) = Inr ks'
             \<and> map weight ks' = map weight ks))"
proof -
  from comment_clauses_Inr [OF assms] obtain w_logic w_ethic where
    ws: "split_stream_weights (get_quality_vector c) = Inr (w_logic, w_ethic)"
    and ks: "ks = [\<lparr>var = Harm, polarity = py_eq_one (get_content_vector c ! 0), weight = w_logic\<rparr>,
            \<lparr>var = Intent, polarity = py_eq_one (get_content_vector c ! 1), weight = w_logic\<rparr>,
            \<lparr>var = Empathy, polarity = py_eq_one (get_content_vector c ! 2), weight = w_ethic\<rparr>,
            \<lparr>var = Apology, polarity = py_eq_one (get_content_vector c ! 3), weight = w_ethic\<rparr>]"
    by blast
  have "length ks = 4" and "map var ks = [Harm, Intent, Empathy, Apology]"
    by (simp_all add: ks)
  moreover have "\<forall>i<4. polarity (ks ! i) \<longleftrightarrow>
          get_content_vector c ! i = PInt 1 \<or> get_content_vector c ! i = PFloat (Fin 1)"
    by (simp add: all_below_four ks py_eq_one_iff)
  moreover have "\<forall>v'. 4 \<le> length v' \<longrightarrow>
          (\<exists>ks'. comment_clauses (c\<lparr>comment_content_vector := Some v'\<rparr>) = Inr ks'
             \<and> map weight ks' = map weight ks)"
  proof (intro allI impI)
    fix v' :: "pynum list"
    assume long: "4 \<le> length v'"
    let ?c = "c\<lparr>comment_content_vector := Some v'\<rparr>"
    have q: "split_stream_weights (get_quality_vector ?c) = Inr (w_logic, w_ethic)"
      using ws by (simp add: get_quality_vector_def)
    have v: "4 \<le> length (get_content_vector ?c)"
      using long by (simp add: get_content_vector_def)
    from comment_clauses_long [OF q v]
    show "\<exists>ks'. comment_clauses ?c = Inr ks' \<and> map weight ks' = map weight ks"
      by (simp add: ks)
  qed
  ultimately show ?thesis by blast
qed

theorem polarity_iff_flag_is_one_witness:
  "comment_clauses comment_flags = Inr clauses_flags
   \<and> get_content_vector comment_flags = [PInt 1, PInt 2, PInt (- 1), PFloat (Fin (1 / 2))]
   \<and> length clauses_flags = 4
   \<and> map var clauses_flags = [Harm, Intent, Empathy, Apology]
   \<and> polarity (clauses_flags ! 0) = True
   \<and> polarity (clauses_flags ! 1) = False
   \<and> polarity (clauses_flags ! 2) = False
   \<and> polarity (clauses_flags ! 3) = False
   \<and> (\<exists>ks'. comment_clauses
          (comment_flags\<lparr>comment_content_vector := Some [PInt 0, PInt 7, PFloat NaN, PInt 1]\<rparr>)
          = Inr ks' \<and> map weight ks' = map weight clauses_flags)"
proof -
  have v: "get_content_vector comment_flags = [PInt 1, PInt 2, PInt (- 1), PFloat (Fin (1 / 2))]"
    by (simp add: get_content_vector_def comment_flags_def)
  note inst = polarity_iff_flag_is_one [OF comment_clauses_comment_flags]
  note len = inst [THEN conjunct1]
  note vars = inst [THEN conjunct2, THEN conjunct1]
  note pol = inst [THEN conjunct2, THEN conjunct2, THEN conjunct1, rule_format]
  note any = inst [THEN conjunct2, THEN conjunct2, THEN conjunct2, rule_format]
  have p0: "polarity (clauses_flags ! 0) = True"
    using pol [of 0] by (simp add: v)
  have p1: "polarity (clauses_flags ! 1) = False"
    using pol [of 1] by (simp add: v)
  have p2: "polarity (clauses_flags ! 2) = False"
    using pol [of 2] by (simp add: v)
  have p3: "polarity (clauses_flags ! 3) = False"
    using pol [of 3] by (simp add: v)
  have "4 \<le> length [PInt 0, PInt 7, PFloat NaN, PInt 1]"
    by simp
  then have ex: "\<exists>ks'. comment_clauses
          (comment_flags\<lparr>comment_content_vector := Some [PInt 0, PInt 7, PFloat NaN, PInt 1]\<rparr>)
          = Inr ks' \<and> map weight ks' = map weight clauses_flags"
    by (rule any)
  from comment_clauses_comment_flags v len vars p0 p1 p2 p3 ex show ?thesis
    by (intro conjI)
qed

text \<open>
  C4, as stated, fails: a comment whose content vector has two entries makes both variants
  raise IndexError.
\<close>

theorem short_content_raises:
  "solve_moral_situation_split_stream weighted_optimizer post_short_content = Inl IndexError
   \<and> solve_moral_situation_split_stream_demo weighted_optimizer post_short_content
       = Inl IndexError"
proof -
  have "add_comments [] (get_comments post_short_content) = Inl IndexError"
    by (simp add: get_comments_def post_short_content_def comment_clauses_eval
        get_content_vector_def get_quality_vector_def default_quality_def
        split_stream_weights_eq pad_quality_def stream_weight_ints)
  moreover have "get_comments post_short_content \<noteq> []"
    by (simp add: get_comments_def post_short_content_def)
  ultimately show ?thesis
    by (simp add: solve_moral_situation_split_stream_def
        solve_moral_situation_split_stream_demo_def)
qed

text \<open>
  C4, amended. A missing content vector is read as \<open>[0,0,0,0]\<close>, a missing quality
  vector as \<open>[1,1,1,1,1]\<close>, a quality vector shorter than five is padded with 1s, and
  none of these shapes raises an error: a run returns exactly when every comment has a
  content vector that is absent or has at least four entries and has weights that the
  cast to int can produce, which is always so when the quality entries read are ints.
\<close>

theorem classification_completes_iff:
  fixes post_data :: "'a post_scheme"
  shows "((\<exists>r. solve_moral_situation_split_stream opt post_data = Inr r) \<longleftrightarrow>
        (\<forall>c \<in> set (get_comments post_data). content_long_enough c \<and> weights_computable c))
    \<and> ((\<exists>r. solve_moral_situation_split_stream_demo opt post_data = Inr r) \<longleftrightarrow>
        (\<forall>c \<in> set (get_comments post_data). content_long_enough c \<and> weights_computable c))
    \<and> (integer_quality c \<longrightarrow> weights_computable c)
    \<and> (comment_content_vector c = None \<longrightarrow>
          get_content_vector c = [PInt 0, PInt 0, PInt 0, PInt 0] \<and> content_long_enough c)
    \<and> (comment_quality_vector c = None \<longrightarrow>
          get_quality_vector c = [PInt 1, PInt 1, PInt 1, PInt 1, PInt 1])"
proof (intro conjI impI)
  show "(\<exists>r. solve_moral_situation_split_stream opt post_data = Inr r) \<longleftrightarrow>
        (\<forall>c \<in> set (get_comments post_data). content_long_enough c \<and> weights_computable c)"
    by (simp only: solve_ok_iff add_comments_ok_iff comment_clauses_ok_iff)
  show "(\<exists>r. solve_moral_situation_split_stream_demo opt post_data = Inr r) \<longleftrightarrow>
        (\<forall>c \<in> set (get_comments post_data). content_long_enough c \<and> weights_computable c)"
    by (simp only: solve_ok_iff add_comments_ok_iff comment_clauses_ok_iff)
next
  assume "integer_quality c"
  then show "weights_computable c" by (rule integer_quality_computable)
next
  assume "comment_content_vector c = None"
  then show "get_content_vector c = [PInt 0, PInt 0, PInt 0, PInt 0]"
    by (simp add: get_content_vector_def default_content_def)
next
  assume "comment_content_vector c = None"
  then show "content_long_enough c"
    by (simp add: content_long_enough_def)
next
  assume "comment_quality_vector c = None"
  then show "get_quality_vector c = [PInt 1, PInt 1, PInt 1, PInt 1, PInt 1]"
    by (simp add: get_quality_vector_def default_quality_def)
qed

theorem classification_completes_iff_witness:
  "get_comments post_defaults =
     [\<lparr>comment_content_vector = None,
       comment_quality_vector = Some [PInt 2, PInt 0, PInt 3]\<rparr>]
   \<and> content_long_enough
       \<lparr>comment_content_vector = None, comment_quality_vector = Some [PInt 2, PInt 0, PInt 3]\<rparr>
   \<and> weights_computable
       \<lparr>comment_content_vector = None, comment_quality_vector = Some [PInt 2, PInt 0, PInt 3]\<rparr>
   \<and> (\<exists>r. solve_moral_situation_split_stream weighted_optimizer post_defaults = Inr r)
   \<and> (\<exists>r. solve_moral_situation_split_stream_demo weighted_optimizer post_defaults = Inr r)"
proof -
  let ?c = "\<lparr>comment_content_vector = None,
      comment_quality_vector = Some [PInt 2, PInt 0, PInt 3]\<rparr>"
  have g: "get_comments post_defaults = [?c]"
    by (simp add: get_comments_def post_defaults_def)
  have "integer_quality ?c"
    by (simp add: integer_quality_def)
  with classification_completes_iff [of weighted_optimizer post_defaults ?c]
  have c: "content_long_enough ?c" and w: "weights_computable ?c"
    by simp_all
  with g have all: "\<forall>c \<in> set (get_comments post_defaults).
      content_long_enough c \<and> weights_computable c"
    by simp
  from classification_completes_iff [of weighted_optimizer post_defaults ?c] all
  have "\<exists>r. solve_moral_situation_split_stream weighted_optimizer post_defaults = Inr r"
    and "\<exists>r. solve_moral_situation_split_stream_demo weighted_optimizer post_defaults = Inr r"
    by blast+
  with g c w show ?thesis by (intro conjI)
qed

end
